theory Spec2Isabelle
  imports
    Main
    "HOL-Library.Word"
    "HOL-Library.Char_ord"
    "HOL-Library.List_Lexorder"
    "HOL-Library.AList"
begin

unbundle bit_operations_syntax

section \<open>Network device detection (pkg/datapath/linux/devices.go)\<close>

text \<open>
  A shallow embedding of the device manager: the device filter, the viability
  classifier, the wildcard expander, one-shot detection, the static device check of
  the reconciliation loop, the traffic-control filter audit and the reader of the
  dynamic-device directory.

  Go strings are byte sequences and are modelled as \<^typ>\<open>string\<close>.  The kernel
  accessor (package netlink), the operating system (package os) and the other
  collaborators are not part of the file; every call the code makes to them is a
  field of a record, a function from the call's arguments to the call's result, with
  an error as a value.  One operation of the manager sees one snapshot of the host:
  the same call with the same arguments gives the same answer within an operation.
\<close>

subsection \<open>Package strings\<close>

definition HasPrefix :: "string \<Rightarrow> string \<Rightarrow> bool" where
  "HasPrefix s p = (length p \<le> length s \<and> take (length p) s = p)"

definition HasSuffix :: "string \<Rightarrow> string \<Rightarrow> bool" where
  "HasSuffix s x = (length x \<le> length s \<and> drop (length s - length x) s = x)"

text \<open>\<open>strings.TrimRight(s, cutset)\<close> for a cutset of ASCII characters (the code
  only passes \<open>"+"\<close>): every trailing byte of the cutset is removed.\<close>

definition TrimRight :: "string \<Rightarrow> string \<Rightarrow> string" where
  "TrimRight s cutset = rev (dropWhile (\<lambda>c. c \<in> set cutset) (rev s))"

text \<open>\<open>strings.Contains\<close>: the substring occurs at some offset.\<close>

fun Contains :: "string \<Rightarrow> string \<Rightarrow> bool" where
  "Contains [] substr = (substr = [])"
| "Contains (c # cs) substr = (HasPrefix (c # cs) substr \<or> Contains cs substr)"

text \<open>
  \<open>strings.TrimSpace\<close> removes leading and trailing white space as
  \<open>unicode.IsSpace\<close> defines it.  On the UTF-8 bytes of a Go string these are the
  six ASCII characters tab, line feed, vertical tab, form feed, carriage return and
  space, and the encodings of U+0085, U+00A0, U+1680, U+2000 to U+200A, U+2028,
  U+2029, U+202F, U+205F and U+3000.
\<close>

definition unicodeSpaces :: "string list" where
  "unicodeSpaces =
     [[CHR 0x09], [CHR 0x0A], [CHR 0x0B], [CHR 0x0C], [CHR 0x0D], [CHR 0x20],
      [CHR 0xC2, CHR 0x85], [CHR 0xC2, CHR 0xA0],
      [CHR 0xE1, CHR 0x9A, CHR 0x80],
      [CHR 0xE2, CHR 0x80, CHR 0x80], [CHR 0xE2, CHR 0x80, CHR 0x81],
      [CHR 0xE2, CHR 0x80, CHR 0x82], [CHR 0xE2, CHR 0x80, CHR 0x83],
      [CHR 0xE2, CHR 0x80, CHR 0x84], [CHR 0xE2, CHR 0x80, CHR 0x85],
      [CHR 0xE2, CHR 0x80, CHR 0x86], [CHR 0xE2, CHR 0x80, CHR 0x87],
      [CHR 0xE2, CHR 0x80, CHR 0x88], [CHR 0xE2, CHR 0x80, CHR 0x89],
      [CHR 0xE2, CHR 0x80, CHR 0x8A],
      [CHR 0xE2, CHR 0x80, CHR 0xA8], [CHR 0xE2, CHR 0x80, CHR 0xA9],
      [CHR 0xE2, CHR 0x80, CHR 0xAF],
      [CHR 0xE2, CHR 0x81, CHR 0x9F],
      [CHR 0xE3, CHR 0x80, CHR 0x80]]"

definition leadingSpace :: "string \<Rightarrow> string option" where
  "leadingSpace s = find (HasPrefix s) unicodeSpaces"

definition trailingSpace :: "string \<Rightarrow> string option" where
  "trailingSpace s = find (HasSuffix s) unicodeSpaces"

lemma unicodeSpaces_nonempty: "w \<in> set unicodeSpaces \<Longrightarrow> 0 < length w"
  by (auto simp: unicodeSpaces_def)

lemma leadingSpace_shorter:
  assumes "leadingSpace s = Some w"
  shows "length s - length w < length s"
proof -
  from assms have "w \<in> set unicodeSpaces" and "HasPrefix s w"
    by (auto simp: leadingSpace_def find_Some_iff)
  then have "0 < length w" and "length w \<le> length s"
    using unicodeSpaces_nonempty by (simp_all add: HasPrefix_def)
  then show ?thesis by arith
qed

lemma trailingSpace_shorter:
  assumes "trailingSpace s = Some w"
  shows "length s - length w < length s"
proof -
  from assms have "w \<in> set unicodeSpaces" and "HasSuffix s w"
    by (auto simp: trailingSpace_def find_Some_iff)
  then have "0 < length w" and "length w \<le> length s"
    using unicodeSpaces_nonempty by (simp_all add: HasSuffix_def)
  then show ?thesis by arith
qed

function TrimLeftSpace :: "string \<Rightarrow> string" where
  "TrimLeftSpace s =
     (case leadingSpace s of
        None \<Rightarrow> s
      | Some w \<Rightarrow> TrimLeftSpace (drop (length w) s))"
  by pat_completeness auto
termination
  by (relation "measure length") (auto simp: leadingSpace_shorter)

function TrimRightSpace :: "string \<Rightarrow> string" where
  "TrimRightSpace s =
     (case trailingSpace s of
        None \<Rightarrow> s
      | Some w \<Rightarrow> TrimRightSpace (take (length s - length w) s))"
  by pat_completeness auto
termination
  by (relation "measure length") (auto simp: trailingSpace_shorter)

definition TrimSpace :: "string \<Rightarrow> string" where
  "TrimSpace s = TrimRightSpace (TrimLeftSpace s)"

subsection \<open>Errors\<close>

text \<open>Every error value the file builds or passes on.  \<open>SysError\<close> is an error
  handed back by the kernel accessor or the operating system; \<open>NotExist\<close> is the
  one for which \<open>os.IsNotExist\<close> holds; \<open>IndexOutOfRange\<close> is the run-time panic
  of an index expression.  The error of a failed wildcard expansion names the setting
  it was asked for: \<open>option.Devices\<close> or \<open>option.DirectRoutingDevice\<close>, constants
  of package option.\<close>

datatype setting = OptDevices | OptDirectRoutingDevice

datatype error =
    SysError string
  | NotExist
  | WildcardFetchFailed error
  | WildcardNoDevices setting
  | RoutesFailed error
  | NodeIPLookupFailed error
  | NoDirectRoutingDevice
  | NoMulticastDevice
  | NodeIPUnknown
  | NodeDeviceNotFound
  | IndexOutOfRange

subsection \<open>Kernel entities\<close>

type_synonym ip = "8 word list"

datatype family = FAMILY_ALL | FAMILY_V4 | FAMILY_V6

record link =
  Index :: int
  Name :: string
  RawFlags :: "32 word"
  Flags :: "64 word"
  HardwareAddr :: "8 word list"
  MasterIndex :: int
  Type :: string

record addr =
  AddrIP :: ip
  AddrFlags :: "64 word"
  AddrLinkIndex :: int

record route =
  RouteDst :: "ip option"
  RouteTable :: int
  RouteLinkIndex :: int

datatype tcfilter = BpfFilter string | OtherFilter

text \<open>The calls made on a netlink handle.  \<open>AddrList\<close> takes the link as an
  option: Go passes \<open>nil\<close> for "all links".  \<open>RouteListFiltered\<close> is always called
  with the filter on the unspecified table, so only the family is an argument.\<close>

record Handle =
  LinkList :: "error + link list"
  LinkByIndex :: "int \<Rightarrow> error + link"
  LinkByName :: "string \<Rightarrow> error + link"
  AddrList :: "link option \<Rightarrow> family \<Rightarrow> error + addr list"
  FilterList :: "link \<Rightarrow> 32 word \<Rightarrow> error + tcfilter list"
  RouteListFiltered :: "family \<Rightarrow> error + route list"

subsection \<open>Configuration and collaborators\<close>

text \<open>\<open>option.Config\<close>, the fields the file reads or writes.\<close>

record config =
  Devices :: "string list"
  DirectRoutingDevice :: string
  IPv6MCastDevice :: string
  EnableIPv4 :: bool
  EnableIPv6 :: bool
  EnableNodePort :: bool
  EnableHostFirewall :: bool
  EnableBandwidthManager :: bool
  EnableHostLegacyRouting :: bool
  EnableIPv6NDP :: bool

record fileinfo =
  IsDir :: bool

record direntry =
  EntryName :: string
  EntryIsDir :: bool

text \<open>
  Everything else the file calls and does not define: the package-level netlink
  functions (they work on the namespace of the process, \<open>dm.handle\<close> on the
  namespace given at construction), viper's raw \<open>devices\<close> setting, the method
  \<open>DirectRoutingDeviceRequired\<close> of the configuration, the helper probe, the
  Kubernetes switch, the constant \<open>defaults.HostDevice\<close>, the node subsystem and the
  file system.
\<close>

record env =
  netlink :: Handle
  viperDevices :: "string list"
  DirectRoutingDeviceRequired :: "config \<Rightarrow> bool"
  GetHelpers :: "string \<Rightarrow> string set option"
  k8sIsEnabled :: bool
  HostDevice :: string
  GetK8sNodeIP :: "ip option"
  GetMasqIPv4AddrsWithDevices :: "string \<rightharpoonup> ip"
  Stat :: "string \<Rightarrow> error + fileinfo"
  ReadDir :: "string \<Rightarrow> direntry list \<times> error option"

text \<open>The device manager: the device set, the filter taken from the configured
  device list at construction, and its netlink handle.\<close>

record DeviceManager =
  devices :: "string set"
  filter' :: "string list"
  handle :: Handle

subsection \<open>Constants\<close>

definition excludedDevicePrefixes :: "string list" where
  "excludedDevicePrefixes = [''cilium_'', ''lo'', ''lxc'', ''cni'', ''docker'']"

definition IFF_LOOPBACK :: "32 word" where "IFF_LOOPBACK = 0x8"
definition IFF_SLAVE :: "32 word" where "IFF_SLAVE = 0x800"

definition excludedIfFlagsMask :: "32 word" where
  "excludedIfFlagsMask = IFF_SLAVE OR IFF_LOOPBACK"

definition tcFilterParentIngress :: "32 word" where "tcFilterParentIngress = 0xfffffff2"
definition tcFilterParentEgress :: "32 word" where "tcFilterParentEgress = 0xfffffff3"

subsection \<open>Device filter\<close>

definition checkLinkAddrs :: "env \<Rightarrow> link \<Rightarrow> family \<Rightarrow> bool" where
  "checkLinkAddrs e l fam =
     (case AddrList (netlink e) (Some l) fam of
        Inl err \<Rightarrow> False
      | Inr addrs \<Rightarrow> if length addrs = 0 then False else True)"

definition checkDeviceWithIP :: "env \<Rightarrow> config \<Rightarrow> string \<Rightarrow> bool" where
  "checkDeviceWithIP e cfg dev =
     (case LinkByName (netlink e) dev of
        Inl err \<Rightarrow> False
      | Inr l \<Rightarrow>
          if EnableIPv4 cfg \<and> \<not> checkLinkAddrs e l FAMILY_V4 then False
          else if EnableIPv6 cfg \<and> \<not> checkLinkAddrs e l FAMILY_V6 then False
          else True)"

text \<open>The loop of \<open>deviceFilter.match\<close> over the entries.\<close>

fun matchEntries :: "env \<Rightarrow> config \<Rightarrow> string list \<Rightarrow> string \<Rightarrow> bool" where
  "matchEntries e cfg [] dev = False"
| "matchEntries e cfg (entry # rest) dev =
     (if HasSuffix entry ''+'' then
        (if HasPrefix dev (TrimRight entry ''+'') \<and> checkDeviceWithIP e cfg dev then True
         else matchEntries e cfg rest dev)
      else if dev = TrimSpace entry then True
      else matchEntries e cfg rest dev)"

definition match :: "env \<Rightarrow> config \<Rightarrow> string list \<Rightarrow> string \<Rightarrow> bool" where
  "match e cfg lst dev = (if length lst = 0 then True else matchEntries e cfg lst dev)"

subsection \<open>Viability classifier\<close>

text \<open>Modelled from the spec: \<open>mac.LinkHasMacAddr\<close> is defined in package mac,
  which is not among the sources; the spec's "this link has no MAC address" is read
  as an empty hardware address.\<close>

definition LinkHasMacAddr :: "link \<Rightarrow> bool" where
  "LinkHasMacAddr l = (length (HardwareAddr l) \<noteq> 0)"

definition hasExcludedPrefix :: "string \<Rightarrow> bool" where
  "hasExcludedPrefix name = list_ex (HasPrefix name) excludedDevicePrefixes"

definition isViableDevice ::
  "env \<Rightarrow> config \<Rightarrow> DeviceManager \<Rightarrow> bool \<Rightarrow> bool \<Rightarrow> link \<Rightarrow> bool" where
  "isViableDevice e cfg dm l3DevOK hasDefaultRoute l =
     (let name = Name l in
      if hasExcludedPrefix name then False
      else if RawFlags l AND excludedIfFlagsMask \<noteq> 0 then False
      else if \<not> l3DevOK \<and> \<not> LinkHasMacAddr l then False
      else if \<not> match e cfg (filter' dm) name then False
      else if Type l = ''veth'' \<and> \<not> hasDefaultRoute then False
      else if Type l = ''bridge'' \<or> Type l = ''openvswitch'' then False
      else if MasterIndex l > 0 then
        (case LinkByIndex (handle dm) (MasterIndex l) of
           Inr master \<Rightarrow>
             if Type master = ''bridge'' \<or> Type master = ''openvswitch'' then False
             else if Type master = ''bond'' \<or> Type master = ''team'' then False
             else True
         | Inl err \<Rightarrow> True)
      else True)"

subsection \<open>Device list and wildcard expansion\<close>

text \<open>A Go \<open>map[string]struct{}\<close> is a finite set of names; its keys, collected and
  passed to \<open>sort.Strings\<close>, are the sorted list of the set.\<close>

definition getDeviceList :: "DeviceManager \<Rightarrow> string list" where
  "getDeviceList dm = sorted_list_of_set (devices dm)"

text \<open>The inner loop of \<open>expandDeviceWildcards\<close> over all links, for one prefix.\<close>

fun expandLinks :: "env \<Rightarrow> config \<Rightarrow> string \<Rightarrow> link list \<Rightarrow> string set \<Rightarrow> string set" where
  "expandLinks e cfg prefix [] m = m"
| "expandLinks e cfg prefix (l # ls) m =
     expandLinks e cfg prefix ls
       (if HasPrefix (Name l) prefix \<and> checkDeviceWithIP e cfg (Name l)
        then insert (Name l) m else m)"

text \<open>The outer loop over the configured entries.\<close>

fun expandEntries ::
  "env \<Rightarrow> config \<Rightarrow> link list \<Rightarrow> string list \<Rightarrow> string set \<Rightarrow> string set" where
  "expandEntries e cfg allLinks [] m = m"
| "expandEntries e cfg allLinks (iface # rest) m =
     expandEntries e cfg allLinks rest
       (if HasSuffix iface ''+''
        then expandLinks e cfg (TrimRight iface ''+'') allLinks m
        else insert iface m)"

definition expandDeviceWildcards ::
  "env \<Rightarrow> config \<Rightarrow> DeviceManager \<Rightarrow> string list \<Rightarrow> setting \<Rightarrow> error + string list" where
  "expandDeviceWildcards e cfg dm devs opt =
     (case LinkList (handle dm) of
        Inl err \<Rightarrow> Inl (WildcardFetchFailed err)
      | Inr allLinks \<Rightarrow>
          (let expandedDevicesMap = expandEntries e cfg allLinks devs {} in
           if length devs > 0 \<and> expandedDevicesMap = {}
           then Inl (WildcardNoDevices opt)
           else Inr (sorted_list_of_set expandedDevicesMap)))"

subsection \<open>Traffic-control filter audit\<close>

definition isCiliumFilter :: "tcfilter \<Rightarrow> bool" where
  "isCiliumFilter f =
     (case f of
        BpfFilter name \<Rightarrow>
          Contains name ''bpf_netdev'' \<or> Contains name ''bpf_network'' \<or>
          Contains name ''bpf_host'' \<or> Contains name ''bpf_lxc'' \<or>
          Contains name ''bpf_overlay''
      | OtherFilter \<Rightarrow> False)"

text \<open>The loop over the two parents; \<open>allFilters\<close> is the list collected so far.\<close>

fun tcFiltersLoop :: "env \<Rightarrow> link \<Rightarrow> 32 word list \<Rightarrow> tcfilter list \<Rightarrow> bool" where
  "tcFiltersLoop e l [] allFilters = (length allFilters = 0)"
| "tcFiltersLoop e l (parent # parents) allFilters =
     (case FilterList (netlink e) l parent of
        Inl err \<Rightarrow> False
      | Inr filters \<Rightarrow> tcFiltersLoop e l parents (allFilters @ filter isCiliumFilter filters))"

definition tcFiltersLost :: "env \<Rightarrow> link \<Rightarrow> bool" where
  "tcFiltersLost e l = tcFiltersLoop e l [tcFilterParentIngress, tcFilterParentEgress] []"

subsection \<open>Dynamic devices\<close>

definition DynamicDevicePath :: string where
  "DynamicDevicePath = ''/etc/dynamic-devices''"

fun readEntries :: "direntry list \<Rightarrow> string list \<Rightarrow> string list" where
  "readEntries [] devs = devs"
| "readEntries (f # fs) devs =
     (if EntryIsDir f then readEntries fs devs
      else readEntries fs (devs @ [EntryName f @ ''+'']))"

text \<open>The error of \<open>os.ReadDir\<close> is assigned and never read; the entries it
  returned are used whatever it was.\<close>

definition ReadDynamicDevices :: "env \<Rightarrow> error + string list" where
  "ReadDynamicDevices e =
     (case Stat e DynamicDevicePath of
        Inl err \<Rightarrow> if err = NotExist then Inr [] else Inl err
      | Inr pathState \<Rightarrow>
          if \<not> IsDir pathState then Inr []
          else (case ReadDir e DynamicDevicePath of (files, err) \<Rightarrow> Inr (readEntries files [])))"

subsection \<open>Package net: IP addresses\<close>

text \<open>\<open>net.IP\<close> is a byte slice of length 4 or 16.  \<open>Equal\<close>, \<open>To4\<close> and
  \<open>IsGlobalUnicast\<close> as the Go standard library defines them.\<close>

definition v4InV6Prefix :: "8 word list" where
  "v4InV6Prefix = [0, 0, 0, 0, 0, 0, 0, 0, 0, 0, 0xff, 0xff]"

definition IPv4 :: "8 word \<Rightarrow> 8 word \<Rightarrow> 8 word \<Rightarrow> 8 word \<Rightarrow> ip" where
  "IPv4 a b c d = v4InV6Prefix @ [a, b, c, d]"

definition IPEqual :: "ip \<Rightarrow> ip \<Rightarrow> bool" where
  "IPEqual ip x =
     (if length ip = length x then ip = x
      else if length ip = 4 \<and> length x = 16 then take 12 x = v4InV6Prefix \<and> ip = drop 12 x
      else if length ip = 16 \<and> length x = 4 then take 12 ip = v4InV6Prefix \<and> drop 12 ip = x
      else False)"

definition To4 :: "ip \<Rightarrow> ip option" where
  "To4 ip =
     (if length ip = 4 then Some ip
      else if length ip = 16 \<and> take 10 ip = replicate 10 0 \<and> ip ! 10 = 0xff \<and> ip ! 11 = 0xff
      then Some (drop 12 ip)
      else None)"

definition IsUnspecified :: "ip \<Rightarrow> bool" where
  "IsUnspecified ip = (IPEqual ip (IPv4 0 0 0 0) \<or> IPEqual ip (replicate 16 0))"

definition IsLoopback :: "ip \<Rightarrow> bool" where
  "IsLoopback ip =
     (case To4 ip of
        Some ip4 \<Rightarrow> ip4 ! 0 = 127
      | None \<Rightarrow> IPEqual ip (replicate 15 0 @ [1]))"

definition IsMulticast :: "ip \<Rightarrow> bool" where
  "IsMulticast ip =
     (case To4 ip of
        Some ip4 \<Rightarrow> ip4 ! 0 AND 0xf0 = 0xe0
      | None \<Rightarrow> length ip = 16 \<and> ip ! 0 = 0xff)"

definition IsLinkLocalUnicast :: "ip \<Rightarrow> bool" where
  "IsLinkLocalUnicast ip =
     (case To4 ip of
        Some ip4 \<Rightarrow> ip4 ! 0 = 169 \<and> ip4 ! 1 = 254
      | None \<Rightarrow> length ip = 16 \<and> ip ! 0 = 0xfe \<and> ip ! 1 AND 0xc0 = 0x80)"

definition IsGlobalUnicast :: "ip \<Rightarrow> bool" where
  "IsGlobalUnicast ip =
     ((length ip = 4 \<or> length ip = 16) \<and>
      \<not> IPEqual ip (IPv4 255 255 255 255) \<and>
      \<not> IsUnspecified ip \<and>
      \<not> IsLoopback ip \<and>
      \<not> IsMulticast ip \<and>
      \<not> IsLinkLocalUnicast ip)"

subsection \<open>Static device check\<close>

definition IFA_F_SECONDARY :: "64 word" where "IFA_F_SECONDARY = 0x01"
definition IFA_F_DEPRECATED :: "64 word" where "IFA_F_DEPRECATED = 0x20"

text \<open>The effective filter: viper's raw device setting and the dynamic patterns, as
  the sorted list of a string set (\<open>sets.String.List\<close>).  A failed read of the dynamic
  devices is logged and adds nothing.\<close>

definition effectiveFilter :: "env \<Rightarrow> string list" where
  "effectiveFilter e =
     (let allDeviceConfigs = set (viperDevices e) in
      sorted_list_of_set
        (case ReadDynamicDevices e of
           Inl err \<Rightarrow> allDeviceConfigs
         | Inr dynamicDeviceConfigs \<Rightarrow> allDeviceConfigs \<union> set dynamicDeviceConfigs))"

text \<open>The loop over all links.  Its state is the device set, the map
  \<open>currentExistOnHost\<close> and the flag \<open>changed\<close>.\<close>

fun checkLinks ::
  "env \<Rightarrow> config \<Rightarrow> string list \<Rightarrow> link list \<Rightarrow>
   string set \<times> (string \<rightharpoonup> link) \<times> bool \<Rightarrow> string set \<times> (string \<rightharpoonup> link) \<times> bool" where
  "checkLinks e cfg flt [] st = st"
| "checkLinks e cfg flt (l # ls) (devs, cur, changed) =
     (let name = Name l; isExcluded = hasExcludedPrefix name in
      if \<not> match e cfg flt name \<or> isExcluded then
        (if name \<in> devs then checkLinks e cfg flt ls (devs - {name}, cur, True)
         else checkLinks e cfg flt ls (devs, cur, changed))
      else if name \<notin> devs then
        checkLinks e cfg flt ls (insert name devs, cur(name \<mapsto> l), True)
      else if tcFiltersLost e l then
        checkLinks e cfg flt ls (devs, cur(name \<mapsto> l), True)
      else checkLinks e cfg flt ls (devs, cur(name \<mapsto> l), changed))"

text \<open>The body of the address loop for one device: true when it sets \<open>changed\<close>.
  The link handed to \<open>AddrList\<close> is the map lookup, \<open>nil\<close> for a missing key.\<close>

definition addrChanged :: "env \<Rightarrow> (string \<rightharpoonup> link) \<Rightarrow> string \<Rightarrow> bool" where
  "addrChanged e cur name =
     (case GetMasqIPv4AddrsWithDevices e name of
        None \<Rightarrow> False
      | Some oldAddr \<Rightarrow>
          (case AddrList (netlink e) (cur name) FAMILY_V4 of
             Inl err \<Rightarrow> False
           | Inr addrs \<Rightarrow>
               \<not> list_ex (\<lambda>a. AddrFlags a AND (IFA_F_SECONDARY OR IFA_F_DEPRECATED) = 0 \<and>
                              IPEqual oldAddr (AddrIP a)) addrs))"

text \<open>The three loops of \<open>checkStaticDevices\<close> after the early returns: over the
  links, over the device set (names no longer on the host) and over the device set
  again (addresses).\<close>

definition removeLost :: "string set \<times> (string \<rightharpoonup> link) \<times> bool \<Rightarrow> string set \<times> (string \<rightharpoonup> link) \<times> bool" where
  "removeLost st =
     (case st of (devs, cur, changed) \<Rightarrow>
        (Set.filter (\<lambda>name. cur name \<noteq> None) devs, cur,
         changed \<or> (\<exists>name \<in> devs. cur name = None)))"

definition checkStaticDevices :: "env \<Rightarrow> config \<Rightarrow> DeviceManager \<Rightarrow> bool \<times> DeviceManager" where
  "checkStaticDevices e cfg dm =
     (case LinkList (handle dm) of
        Inl err \<Rightarrow> (False, dm)
      | Inr allLinks \<Rightarrow>
          (let flt = effectiveFilter e in
           if length flt = 0 then (False, dm)
           else
             (case removeLost (checkLinks e cfg flt allLinks (devices dm, Map.empty, False)) of
                (devs, currentExistOnHost, changed) \<Rightarrow>
                  (changed \<or> (\<exists>name \<in> devs. addrChanged e currentExistOnHost name),
                   dm\<lparr>devices := devs\<rparr>))))"

subsection \<open>Detection\<close>

definition RT_TABLE_LOCAL :: int where "RT_TABLE_LOCAL = 255"

definition FlagMulticast :: "64 word" where "FlagMulticast = 0x10"

definition AreDevicesRequired :: "config \<Rightarrow> bool" where
  "AreDevicesRequired cfg =
     (EnableNodePort cfg \<or> EnableHostFirewall cfg \<or> EnableBandwidthManager cfg)"

definition supportL3Dev :: "env \<Rightarrow> bool" where
  "supportL3Dev e =
     (case GetHelpers e ''sched_cls'' of
        Some h \<Rightarrow> ''bpf_skb_change_head'' \<in> h
      | None \<Rightarrow> False)"

definition expandDevices :: "env \<Rightarrow> DeviceManager \<Rightarrow> config \<Rightarrow> error + config" where
  "expandDevices e dm cfg =
     (case expandDeviceWildcards e cfg dm (Devices cfg) OptDevices of
        Inl err \<Rightarrow> Inl err
      | Inr expandedDevices \<Rightarrow> Inr (cfg\<lparr>Devices := expandedDevices\<rparr>))"

text \<open>\<open>expandedDevices[0]\<close> panics on an empty slice; the panic is the error
  \<open>IndexOutOfRange\<close>.\<close>

definition expandDirectRoutingDevice :: "env \<Rightarrow> DeviceManager \<Rightarrow> config \<Rightarrow> error + config" where
  "expandDirectRoutingDevice e dm cfg =
     (if DirectRoutingDevice cfg = '''' then Inr cfg
      else
        (case expandDeviceWildcards e cfg dm [DirectRoutingDevice cfg] OptDirectRoutingDevice of
           Inl err \<Rightarrow> Inl err
         | Inr expandedDevices \<Rightarrow>
             (case expandedDevices of
                [] \<Rightarrow> Inl IndexOutOfRange
              | dev # rest \<Rightarrow> Inr (cfg\<lparr>DirectRoutingDevice := dev\<rparr>))))"

text \<open>The first loop of \<open>updateDevicesFromRoutes\<close>: \<open>linkInfos\<close>, a map from link
  index to \<open>hasDefaultRoute\<close>, kept as an association list so that the second loop
  can range over it.\<close>

fun collectLinkInfos :: "route list \<Rightarrow> (int \<times> bool) list \<Rightarrow> (int \<times> bool) list" where
  "collectLinkInfos [] linkInfos = linkInfos"
| "collectLinkInfos (r # rs) linkInfos =
     (if (case RouteDst r of Some dst \<Rightarrow> \<not> IsGlobalUnicast dst | None \<Rightarrow> False)
      then collectLinkInfos rs linkInfos
      else if RouteTable r = RT_TABLE_LOCAL then collectLinkInfos rs linkInfos
      else
        (let hasDefaultRoute =
               (case map_of linkInfos (RouteLinkIndex r) of Some b \<Rightarrow> b | None \<Rightarrow> False)
         in collectLinkInfos rs
              (AList.update (RouteLinkIndex r) (hasDefaultRoute \<or> RouteDst r = None) linkInfos)))"

text \<open>The second loop, over the entries of \<open>linkInfos\<close>.  Go ranges over the map in
  an unspecified order; the model takes the order of first insertion.\<close>

fun addViable ::
  "env \<Rightarrow> config \<Rightarrow> bool \<Rightarrow> (int \<times> bool) list \<Rightarrow> DeviceManager \<times> bool \<Rightarrow> DeviceManager \<times> bool" where
  "addViable e cfg l3DevOK [] st = st"
| "addViable e cfg l3DevOK ((index, info) # rest) (dm, changed) =
     (case LinkByIndex (handle dm) index of
        Inl err \<Rightarrow> addViable e cfg l3DevOK rest (dm, changed)
      | Inr l \<Rightarrow>
          if Name l \<in> devices dm then addViable e cfg l3DevOK rest (dm, changed)
          else if isViableDevice e cfg dm l3DevOK info l
          then addViable e cfg l3DevOK rest (dm\<lparr>devices := insert (Name l) (devices dm)\<rparr>, True)
          else addViable e cfg l3DevOK rest (dm, changed))"

definition updateDevicesFromRoutes ::
  "env \<Rightarrow> config \<Rightarrow> DeviceManager \<Rightarrow> bool \<Rightarrow> route list \<Rightarrow> DeviceManager \<times> bool" where
  "updateDevicesFromRoutes e cfg dm l3DevOK routes =
     addViable e cfg l3DevOK (collectLinkInfos routes []) (dm, False)"

fun findNodeLink :: "env \<Rightarrow> ip \<Rightarrow> addr list \<Rightarrow> error + link" where
  "findNodeLink e nodeIP [] = Inl NodeDeviceNotFound"
| "findNodeLink e nodeIP (a # as) =
     (if IPEqual (AddrIP a) nodeIP then
        (case LinkByIndex (netlink e) (AddrLinkIndex a) of
           Inl err \<Rightarrow> Inl err
         | Inr l \<Rightarrow> if Name l = HostDevice e then findNodeLink e nodeIP as else Inr l)
      else findNodeLink e nodeIP as)"

definition findK8SNodeIPLink :: "env \<Rightarrow> error + link" where
  "findK8SNodeIPLink e =
     (case GetK8sNodeIP e of
        None \<Rightarrow> Inl NodeIPUnknown
      | Some nodeIP \<Rightarrow>
          (let fam = (if To4 nodeIP \<noteq> None then FAMILY_V4 else FAMILY_V6) in
           case AddrList (netlink e) None fam of
             Inl err \<Rightarrow> Inl NodeDeviceNotFound
           | Inr addrs \<Rightarrow> findNodeLink e nodeIP addrs))"

definition routeFamily :: "config \<Rightarrow> family" where
  "routeFamily cfg =
     (if EnableIPv4 cfg \<and> \<not> EnableIPv6 cfg then FAMILY_V4
      else if \<not> EnableIPv4 cfg \<and> EnableIPv6 cfg then FAMILY_V6
      else FAMILY_ALL)"

text \<open>Lines 103 to 122 of \<open>Detect\<close>: the devices from the routes, or from the
  configured list.\<close>

definition seedDevices :: "env \<Rightarrow> config \<Rightarrow> DeviceManager \<Rightarrow> bool \<Rightarrow> error + DeviceManager" where
  "seedDevices e cfg dm l3DevOK =
     (if length (Devices cfg) = 0 \<and> AreDevicesRequired cfg then
        (case RouteListFiltered (handle dm) (routeFamily cfg) of
           Inl err \<Rightarrow> Inl (RoutesFailed err)
         | Inr routes \<Rightarrow> Inr (fst (updateDevicesFromRoutes e cfg dm l3DevOK routes)))
      else Inr (dm\<lparr>devices := fold insert (Devices cfg) (devices dm)\<rparr>))"

text \<open>Lines 146 to 161: the direct routing device, when it is to be detected.
  \<open>len(dm.devices) == 1\<close> is read off the sorted key list.\<close>

definition pickDirectRoutingDevice :: "DeviceManager \<Rightarrow> config \<Rightarrow> string \<Rightarrow> error + config" where
  "pickDirectRoutingDevice dm cfg k8sNodeDev =
     (case getDeviceList dm of
        [dev] \<Rightarrow> Inr (cfg\<lparr>DirectRoutingDevice := dev\<rparr>)
      | _ \<Rightarrow>
          if k8sNodeDev \<noteq> '''' then Inr (cfg\<lparr>DirectRoutingDevice := k8sNodeDev\<rparr>)
          else Inl NoDirectRoutingDevice)"

text \<open>Lines 146 to 171, after the node link has been looked up.  The first
  component is the error returned, if any; the state reached is returned with it.\<close>

definition pickDevices ::
  "DeviceManager \<Rightarrow> config \<Rightarrow> link option \<Rightarrow> bool \<Rightarrow> bool \<Rightarrow>
   error option \<times> DeviceManager \<times> config" where
  "pickDevices dm cfg k8sNodeLink detectDirectRoutingDev detectIPv6MCastDev =
     (let k8sNodeDev = (case k8sNodeLink of Some l \<Rightarrow> Name l | None \<Rightarrow> '''') in
      case (if detectDirectRoutingDev then pickDirectRoutingDevice dm cfg k8sNodeDev
            else Inr cfg) of
        Inl err \<Rightarrow> (Some err, dm, cfg)
      | Inr cfg1 \<Rightarrow>
          if detectIPv6MCastDev then
            (case k8sNodeLink of
               Some l \<Rightarrow>
                 if Flags l AND FlagMulticast \<noteq> 0
                 then (None, dm, cfg1\<lparr>IPv6MCastDevice := k8sNodeDev\<rparr>)
                 else (Some NoMulticastDevice, dm, cfg1)
             | None \<Rightarrow> (Some NoMulticastDevice, dm, cfg1))
          else (None, dm, cfg1))"

text \<open>Lines 124 to 172.\<close>

definition resolveDevices ::
  "env \<Rightarrow> DeviceManager \<Rightarrow> config \<Rightarrow> error option \<times> DeviceManager \<times> config" where
  "resolveDevices e dm cfg =
     (let required = DirectRoutingDeviceRequired e cfg;
          explicitDirect = (required \<and> DirectRoutingDevice cfg \<noteq> '''');
          dm1 = (if explicitDirect
                 then dm\<lparr>devices := insert (DirectRoutingDevice cfg) (devices dm)\<rparr> else dm);
          detectDirectRoutingDev = (required \<and> \<not> explicitDirect);
          explicitMCast = (IPv6MCastDevice cfg \<noteq> '''');
          dm2 = (if explicitMCast
                 then dm1\<lparr>devices := insert (IPv6MCastDevice cfg) (devices dm1)\<rparr> else dm1);
          detectIPv6MCastDev = (EnableIPv6NDP cfg \<and> \<not> explicitMCast)
      in
        if detectDirectRoutingDev \<or> detectIPv6MCastDev then
          (case findK8SNodeIPLink e of
             Inr k8sNodeLink \<Rightarrow>
               pickDevices (dm2\<lparr>devices := insert (Name k8sNodeLink) (devices dm2)\<rparr>) cfg
                 (Some k8sNodeLink) detectDirectRoutingDev detectIPv6MCastDev
           | Inl err \<Rightarrow>
               if k8sIsEnabled e then (Some (NodeIPLookupFailed err), dm2, cfg)
               else pickDevices dm2 cfg None detectDirectRoutingDev detectIPv6MCastDev)
        else (None, dm2, cfg))"

text \<open>\<open>Detect\<close> returns the device list or an error; the manager and the
  configuration it leaves behind are returned with either.\<close>

definition Detect ::
  "env \<Rightarrow> DeviceManager \<Rightarrow> config \<Rightarrow> (error + string list) \<times> DeviceManager \<times> config" where
  "Detect e dm0 cfg0 =
     (let dm = dm0\<lparr>devices := {}\<rparr> in
      case expandDevices e dm cfg0 of
        Inl err \<Rightarrow> (Inl err, dm, cfg0)
      | Inr cfg1 \<Rightarrow>
          (case expandDirectRoutingDevice e dm cfg1 of
             Inl err \<Rightarrow> (Inl err, dm, cfg1)
           | Inr cfg2 \<Rightarrow>
               (let l3DevOK = (if \<not> EnableHostLegacyRouting cfg2 then supportL3Dev e else True) in
                case seedDevices e cfg2 dm l3DevOK of
                  Inl err \<Rightarrow> (Inl err, dm, cfg2)
                | Inr dm1 \<Rightarrow>
                    (case resolveDevices e dm1 cfg2 of
                       (Some err, dm2, cfg3) \<Rightarrow> (Inl err, dm2, cfg3)
                     | (None, dm2, cfg3) \<Rightarrow>
                         (let deviceList = getDeviceList dm2 in
                          (Inr deviceList, dm2, cfg3\<lparr>Devices := deviceList\<rparr>))))))"

subsection \<open>An example host\<close>

text \<open>A host with a loopback device, three Ethernet devices (\<open>eth1\<close> carries no
  address), a veth device, a bridge and a port of the bridge.  It serves as the
  concrete input of the instances below.\<close>

definition mkLink :: "int \<Rightarrow> string \<Rightarrow> string \<Rightarrow> int \<Rightarrow> link" where
  "mkLink i n t m =
     \<lparr>Index = i, Name = n, RawFlags = 0x1043, Flags = 0x13,
      HardwareAddr = [2, 0, 0, 0, 0, word_of_int i], MasterIndex = m, Type = t\<rparr>"

definition exLo :: link where
  "exLo = \<lparr>Index = 1, Name = ''lo'', RawFlags = 0x49, Flags = 0x5,
           HardwareAddr = [0, 0, 0, 0, 0, 0], MasterIndex = 0, Type = ''device''\<rparr>"

definition exEth0 :: link where "exEth0 = mkLink 2 ''eth0'' ''device'' 0"
definition exEth12 :: link where "exEth12 = mkLink 3 ''eth12'' ''device'' 0"
definition exEth1 :: link where "exEth1 = mkLink 4 ''eth1'' ''device'' 0"
definition exVeth0 :: link where "exVeth0 = mkLink 5 ''veth0'' ''veth'' 0"
definition exBr0 :: link where "exBr0 = mkLink 6 ''br0'' ''bridge'' 0"
definition exEth2 :: link where "exEth2 = mkLink 7 ''eth2'' ''device'' 6"

definition exLinks :: "link list" where
  "exLinks = [exLo, exEth0, exEth12, exEth1, exVeth0, exBr0, exEth2]"

definition exAddrs :: "string \<Rightarrow> family \<Rightarrow> addr list" where
  "exAddrs n fam =
     (if fam = FAMILY_V6 then []
      else if n = ''lo'' then [\<lparr>AddrIP = [127, 0, 0, 1], AddrFlags = 0x80, AddrLinkIndex = 1\<rparr>]
      else if n = ''eth0'' then [\<lparr>AddrIP = [10, 0, 0, 2], AddrFlags = 0x80, AddrLinkIndex = 2\<rparr>]
      else if n = ''eth12'' then [\<lparr>AddrIP = [10, 0, 1, 2], AddrFlags = 0x80, AddrLinkIndex = 3\<rparr>]
      else if n = ''veth0'' then [\<lparr>AddrIP = [10, 0, 2, 2], AddrFlags = 0x80, AddrLinkIndex = 5\<rparr>]
      else [])"

definition exHandle :: "link list \<Rightarrow> Handle" where
  "exHandle ls =
     \<lparr>LinkList = Inr ls,
      LinkByIndex = (\<lambda>i. case find (\<lambda>l. Index l = i) ls of
                          Some l \<Rightarrow> Inr l | None \<Rightarrow> Inl (SysError ''Link not found'')),
      LinkByName = (\<lambda>n. case find (\<lambda>l. Name l = n) ls of
                          Some l \<Rightarrow> Inr l | None \<Rightarrow> Inl (SysError ''Link not found'')),
      AddrList = (\<lambda>l fam. case l of
                          Some l \<Rightarrow> Inr (exAddrs (Name l) fam)
                        | None \<Rightarrow> Inr (concat (map (\<lambda>l. exAddrs (Name l) fam) ls))),
      FilterList = (\<lambda>l parent. Inr (if Name l = ''eth0'' then [BpfFilter ''bpf_netdev_eth0.o:[from-netdev]''] else [])),
      RouteListFiltered = (\<lambda>fam. Inr [])\<rparr>"

definition exEnv :: "link list \<Rightarrow> env" where
  "exEnv ls =
     \<lparr>netlink = exHandle ls,
      viperDevices = [],
      DirectRoutingDeviceRequired = (\<lambda>cfg. False),
      GetHelpers = (\<lambda>t. None),
      k8sIsEnabled = False,
      HostDevice = ''cilium_host'',
      GetK8sNodeIP = None,
      GetMasqIPv4AddrsWithDevices = Map.empty,
      Stat = (\<lambda>p. Inl NotExist),
      ReadDir = (\<lambda>p. ([], Some NotExist))\<rparr>"

definition exConfig :: "string list \<Rightarrow> config" where
  "exConfig devs =
     \<lparr>Devices = devs, DirectRoutingDevice = '''', IPv6MCastDevice = '''',
      EnableIPv4 = True, EnableIPv6 = False, EnableNodePort = True,
      EnableHostFirewall = False, EnableBandwidthManager = False,
      EnableHostLegacyRouting = True, EnableIPv6NDP = False\<rparr>"

definition exManager :: "link list \<Rightarrow> string list \<Rightarrow> string set \<Rightarrow> DeviceManager" where
  "exManager ls flt devs = \<lparr>devices = devs, filter' = flt, handle = exHandle ls\<rparr>"

definition exTwo :: "link list" where "exTwo = [exEth0, exEth1]"

text \<open>A host for the static device check: two Ethernet devices with an address each,
  \<open>eth0\<close> with the program attached and \<open>eth12\<close> without, and \<open>eth+\<close> as the
  configured pattern.\<close>

definition exTickLinks :: "link list" where "exTickLinks = [exEth0, exEth12]"

definition exTickEnv :: env where
  "exTickEnv = (exEnv exTickLinks)\<lparr>viperDevices := [''eth+'']\<rparr>"

definition exTickManager :: DeviceManager where
  "exTickManager = exManager exTickLinks [''eth+''] {''eth0'', ''eth12''}"

text \<open>A handle whose link listing fails.\<close>

definition exBrokenManager :: DeviceManager where
  "exBrokenManager =
     \<lparr>devices = {''eth0''}, filter' = [],
      handle = (exHandle exTickLinks)\<lparr>LinkList := Inl (SysError ''netlink: interrupted'')\<rparr>\<rparr>"

text \<open>The same host with a device set that holds a name no longer on the host and
  misses \<open>eth12\<close>.\<close>

definition exStaleManager :: DeviceManager where
  "exStaleManager = exManager exTickLinks [''eth+''] {''eth0'', ''gone0''}"

text \<open>The same host when listing the filters fails.\<close>

definition exNoFiltersEnv :: env where
  "exNoFiltersEnv =
     exTickEnv\<lparr>netlink := (exHandle exTickLinks)
       \<lparr>FilterList := (\<lambda>l parent. Inl (SysError ''netlink: interrupted''))\<rparr>\<rparr>"

text \<open>Inputs for \<open>Detect\<close>: a device list that is not sorted, the same with a direct
  routing device pattern that matches no link, and a host where \<open>eth0\<close> has a default
  route and a route to a global unicast network.\<close>

definition exUnsorted :: config where
  "exUnsorted = exConfig [''eth1'', ''eth0'']"


definition exUnsortedManager :: DeviceManager where
  "exUnsortedManager = exManager exTwo [''eth1'', ''eth0''] {''eth0''}"



definition exRoutes :: "route list" where
  "exRoutes =
     [\<lparr>RouteDst = None, RouteTable = 254, RouteLinkIndex = 2\<rparr>,
      \<lparr>RouteDst = Some [10, 0, 0, 0], RouteTable = 254, RouteLinkIndex = 2\<rparr>,
      \<lparr>RouteDst = Some [10, 0, 0, 2], RouteTable = 255, RouteLinkIndex = 2\<rparr>,
      \<lparr>RouteDst = Some [169, 254, 0, 0], RouteTable = 254, RouteLinkIndex = 4\<rparr>]"

definition exRouteManager :: DeviceManager where
  "exRouteManager =
     \<lparr>devices = {}, filter' = [],
      handle = (exHandle exTwo)\<lparr>RouteListFiltered := (\<lambda>fam. Inr exRoutes)\<rparr>\<rparr>"

text \<open>File systems: the path is a directory with a file and a subdirectory, and the
  path is a regular file.\<close>

definition exDynEnv :: env where
  "exDynEnv =
     (exEnv [])\<lparr>Stat := (\<lambda>p. if p = DynamicDevicePath then Inr \<lparr>IsDir = True\<rparr> else Inl NotExist),
                ReadDir := (\<lambda>p. ([\<lparr>EntryName = ''eth'', EntryIsDir = False\<rparr>,
                                   \<lparr>EntryName = ''sub'', EntryIsDir = True\<rparr>], None))\<rparr>"

definition exFileEnv :: env where
  "exFileEnv =
     (exEnv [])\<lparr>Stat := (\<lambda>p. if p = DynamicDevicePath then Inr \<lparr>IsDir = False\<rparr> else Inl NotExist)\<rparr>"

section \<open>Properties\<close>

subsection \<open>Device filter\<close>

lemma checkLinkAddrs_iff:
  "checkLinkAddrs e l fam \<longleftrightarrow>
     (\<exists>addrs. AddrList (netlink e) (Some l) fam = Inr addrs \<and> addrs \<noteq> [])"
  by (auto simp: checkLinkAddrs_def split: sum.splits)

lemma checkDeviceWithIP_iff:
  "checkDeviceWithIP e cfg dev \<longleftrightarrow>
     (\<exists>l. LinkByName (netlink e) dev = Inr l \<and>
          (EnableIPv4 cfg \<longrightarrow> checkLinkAddrs e l FAMILY_V4) \<and>
          (EnableIPv6 cfg \<longrightarrow> checkLinkAddrs e l FAMILY_V6))"
  by (auto simp: checkDeviceWithIP_def split: sum.splits)

lemma matchEntries_Cons:
  "matchEntries e cfg (entry # rest) dev \<longleftrightarrow>
     (if HasSuffix entry ''+''
      then HasPrefix dev (TrimRight entry ''+'') \<and> checkDeviceWithIP e cfg dev
      else dev = TrimSpace entry) \<or>
     matchEntries e cfg rest dev"
  by (cases "HasSuffix entry ''+''") auto

lemma matchEntries_iff:
  "matchEntries e cfg lst dev \<longleftrightarrow>
     (\<exists>entry \<in> set lst.
        if HasSuffix entry ''+''
        then HasPrefix dev (TrimRight entry ''+'') \<and> checkDeviceWithIP e cfg dev
        else dev = TrimSpace entry)"
proof (induction lst)
  case Nil
  show ?case by simp
next
  case (Cons entry rest)
  show ?case unfolding matchEntries_Cons Cons.IH by simp
qed

text \<open>
  C2.  \<open>deviceFilter.match\<close> accepts every name on an empty pattern list.  On a
  non-empty list it accepts a name exactly when some pattern matches it: a pattern
  ending in \<open>+\<close> matches when the name has the pattern stripped of its trailing \<open>+\<close>
  signs as a prefix and the device of that name is found and, for each enabled
  address family, its address listing succeeds and is not empty; any other pattern
  matches when the name equals the pattern trimmed of surrounding white space.
\<close>

theorem match_spec:
  "match e cfg [] dev \<and>
   (lst \<noteq> [] \<longrightarrow>
      match e cfg lst dev =
        (\<exists>entry \<in> set lst.
           if HasSuffix entry ''+'' then
             HasPrefix dev (TrimRight entry ''+'') \<and>
             (\<exists>l. LinkByName (netlink e) dev = Inr l \<and>
                (EnableIPv4 cfg \<longrightarrow>
                   (\<exists>addrs. AddrList (netlink e) (Some l) FAMILY_V4 = Inr addrs \<and> addrs \<noteq> [])) \<and>
                (EnableIPv6 cfg \<longrightarrow>
                   (\<exists>addrs. AddrList (netlink e) (Some l) FAMILY_V6 = Inr addrs \<and> addrs \<noteq> [])))
           else dev = TrimSpace entry))"
  by (simp add: match_def matchEntries_iff checkDeviceWithIP_iff checkLinkAddrs_iff)

subsection \<open>Viability classifier\<close>

lemma excludedIfFlags_iff:
  "(w AND excludedIfFlagsMask = 0) \<longleftrightarrow> (w AND IFF_SLAVE = 0 \<and> w AND IFF_LOOPBACK = 0)"
  by (simp add: excludedIfFlagsMask_def bit.conj_disj_distrib or_eq_0_iff)

text \<open>
  C1.  \<open>isViableDevice\<close> accepts a link exactly when no rule rejects it: the name has
  none of the excluded prefixes; neither the slave nor the loopback flag is set; the
  link has a MAC address or L3 devices are supported; the device filter accepts the
  name; a veth link has a default route; the link is neither a bridge nor an
  openvswitch device; and the link has no master that resolves to a bridge, an
  openvswitch, a bond or a team device.  Each rule is a conjunct, so a link rejected
  by one rule is rejected whatever the later rules would say.
\<close>

theorem isViableDevice_rules:
  "isViableDevice e cfg dm l3DevOK hasDefaultRoute l \<longleftrightarrow>
     \<not> (\<exists>p \<in> set excludedDevicePrefixes. HasPrefix (Name l) p) \<and>
     (RawFlags l AND IFF_SLAVE = 0 \<and> RawFlags l AND IFF_LOOPBACK = 0) \<and>
     (l3DevOK \<or> LinkHasMacAddr l) \<and>
     match e cfg (filter' dm) (Name l) \<and>
     (Type l = ''veth'' \<longrightarrow> hasDefaultRoute) \<and>
     Type l \<noteq> ''bridge'' \<and> Type l \<noteq> ''openvswitch'' \<and>
     \<not> (0 < MasterIndex l \<and>
        (\<exists>master. LinkByIndex (handle dm) (MasterIndex l) = Inr master \<and>
           Type master \<in> {''bridge'', ''openvswitch'', ''bond'', ''team''}))"
  unfolding isViableDevice_def Let_def hasExcludedPrefix_def list_ex_iff
    excludedIfFlags_iff [symmetric]
  by (auto split: sum.splits)

text \<open>Instances on the example host.\<close>

lemmas exDefs = exEnv_def exHandle_def exLinks_def exLo_def exEth0_def exEth12_def exEth1_def
  exVeth0_def exBr0_def exEth2_def mkLink_def exAddrs_def exConfig_def exManager_def

lemmas strDefs = HasPrefix_def HasSuffix_def TrimRight_def

theorem match_spec_witness:
  "match (exEnv exLinks) (exConfig []) [] ''lo'' \<and>
   match (exEnv exLinks) (exConfig []) [''eth+''] ''eth0'' \<and>
   match (exEnv exLinks) (exConfig []) [''eth+''] ''eth12'' \<and>
   \<not> match (exEnv exLinks) (exConfig []) [''eth+''] ''eth1'' \<and>
   \<not> match (exEnv exLinks) (exConfig []) [''eth+''] ''lo'' \<and>
   \<not> match (exEnv exLinks) (exConfig []) [''eth+''] ''veth0'' \<and>
   match (exEnv exLinks) (exConfig []) [''eth+'', '' veth0 ''] ''veth0''"
  using match_spec [of "exEnv exLinks" "exConfig []" "''lo''" "[''eth+'']"]
    match_spec [of "exEnv exLinks" "exConfig []" "''eth0''" "[''eth+'']"]
    match_spec [of "exEnv exLinks" "exConfig []" "''eth12''" "[''eth+'']"]
    match_spec [of "exEnv exLinks" "exConfig []" "''eth1''" "[''eth+'']"]
    match_spec [of "exEnv exLinks" "exConfig []" "''veth0''" "[''eth+'']"]
    match_spec [of "exEnv exLinks" "exConfig []" "''veth0''" "[''eth+'', '' veth0 '']"]
  by (simp add: exDefs strDefs TrimSpace_def leadingSpace_def trailingSpace_def unicodeSpaces_def)

theorem isViableDevice_rules_witness:
  "isViableDevice (exEnv exLinks) (exConfig []) (exManager exLinks [] {}) False True exVeth0 \<and>
   \<not> isViableDevice (exEnv exLinks) (exConfig []) (exManager exLinks [] {}) False False exVeth0 \<and>
   isViableDevice (exEnv exLinks) (exConfig []) (exManager exLinks [] {}) False False exEth0 \<and>
   \<not> isViableDevice (exEnv exLinks) (exConfig []) (exManager exLinks [] {}) False True exLo \<and>
   \<not> isViableDevice (exEnv exLinks) (exConfig []) (exManager exLinks [] {}) False True exBr0 \<and>
   \<not> isViableDevice (exEnv exLinks) (exConfig []) (exManager exLinks [] {}) False True exEth2"
  using isViableDevice_rules [of "exEnv exLinks" "exConfig []" "exManager exLinks [] {}" False True exVeth0]
    isViableDevice_rules [of "exEnv exLinks" "exConfig []" "exManager exLinks [] {}" False False exVeth0]
    isViableDevice_rules [of "exEnv exLinks" "exConfig []" "exManager exLinks [] {}" False False exEth0]
    isViableDevice_rules [of "exEnv exLinks" "exConfig []" "exManager exLinks [] {}" False True exLo]
    isViableDevice_rules [of "exEnv exLinks" "exConfig []" "exManager exLinks [] {}" False True exBr0]
    isViableDevice_rules [of "exEnv exLinks" "exConfig []" "exManager exLinks [] {}" False True exEth2]
  by (simp add: exDefs strDefs match_def excludedDevicePrefixes_def IFF_SLAVE_def IFF_LOOPBACK_def
      LinkHasMacAddr_def)

subsection \<open>Wildcard expansion\<close>

lemma expandLinks_eq:
  "expandLinks e cfg prefix ls m =
     m \<union> {Name l | l. l \<in> set ls \<and> HasPrefix (Name l) prefix \<and> checkDeviceWithIP e cfg (Name l)}"
  by (induction ls arbitrary: m) auto

lemma expandEntries_eq:
  "expandEntries e cfg allLinks devs m =
     m \<union> {d \<in> set devs. \<not> HasSuffix d ''+''} \<union>
     {Name l | l p. l \<in> set allLinks \<and> p \<in> set devs \<and> HasSuffix p ''+'' \<and>
        HasPrefix (Name l) (TrimRight p ''+'') \<and> checkDeviceWithIP e cfg (Name l)}"
proof (induction devs arbitrary: m)
  case Nil
  show ?case by simp
next
  case (Cons iface rest)
  show ?case
  proof (cases "HasSuffix iface ''+''")
    case True
    then show ?thesis
      unfolding expandEntries.simps Cons.IH expandLinks_eq by auto
  next
    case False
    then show ?thesis
      unfolding expandEntries.simps Cons.IH by auto
  qed
qed

lemma expansion_lists:
  "{d \<in> set devs. \<not> HasSuffix d ''+''} \<union>
     {Name l | l p. l \<in> set allLinks \<and> p \<in> set devs \<and> HasSuffix p ''+'' \<and>
        HasPrefix (Name l) (TrimRight p ''+'') \<and> checkDeviceWithIP e cfg (Name l)} =
   set (filter (\<lambda>d. \<not> HasSuffix d ''+'') devs) \<union>
     (\<Union>p \<in> set (filter (\<lambda>d. HasSuffix d ''+'') devs).
        set (filter (\<lambda>n. HasPrefix n (TrimRight p ''+'') \<and> checkDeviceWithIP e cfg n)
               (map Name allLinks)))"
  by auto

lemma expandEntries_lists:
  "expandEntries e cfg allLinks devs {} =
   set (filter (\<lambda>d. \<not> HasSuffix d ''+'') devs) \<union>
     (\<Union>p \<in> set (filter (\<lambda>d. HasSuffix d ''+'') devs).
        set (filter (\<lambda>n. HasPrefix n (TrimRight p ''+'') \<and> checkDeviceWithIP e cfg n)
               (map Name allLinks)))"
  unfolding expandEntries_eq expansion_lists [symmetric] by simp

text \<open>
  C3, as amended.  \<open>expandDeviceWildcards\<close> lists the links before it reads any
  pattern; when that listing fails, the result is an error for every pattern list.
  When the listing succeeds, it computes the set made of the patterns without a
  trailing \<open>+\<close>, verbatim, and, for each pattern with a trailing \<open>+\<close>, of the names
  of the current links that have the stripped pattern as a prefix and pass the address
  gate.  If the pattern list is not empty and this set is empty, the result is an
  error; otherwise the result is the sorted list without duplicates of the set.
\<close>

theorem expandDeviceWildcards_spec:
  "(\<forall>err. LinkList (handle dm) = Inl err \<longrightarrow>
      expandDeviceWildcards e cfg dm devs opt = Inl (WildcardFetchFailed err)) \<and>
   (\<forall>allLinks. LinkList (handle dm) = Inr allLinks \<longrightarrow>
      (let expansion =
         set (filter (\<lambda>d. \<not> HasSuffix d ''+'') devs) \<union>
         (\<Union>p \<in> set (filter (\<lambda>d. HasSuffix d ''+'') devs).
            set (filter (\<lambda>n. HasPrefix n (TrimRight p ''+'') \<and> checkDeviceWithIP e cfg n)
                   (map Name allLinks)))
       in if devs \<noteq> [] \<and> expansion = {}
          then expandDeviceWildcards e cfg dm devs opt = Inl (WildcardNoDevices opt)
          else (\<exists>xs. expandDeviceWildcards e cfg dm devs opt = Inr xs \<and>
                  sorted xs \<and> distinct xs \<and> set xs = expansion)))"
proof (intro conjI allI impI)
  fix err
  assume "LinkList (handle dm) = Inl err"
  then show "expandDeviceWildcards e cfg dm devs opt = Inl (WildcardFetchFailed err)"
    by (simp add: expandDeviceWildcards_def)
next
  fix allLinks
  assume l: "LinkList (handle dm) = Inr allLinks"
  have fin: "finite (expandEntries e cfg allLinks devs {})"
    unfolding expandEntries_lists by simp
  show "let expansion =
         set (filter (\<lambda>d. \<not> HasSuffix d ''+'') devs) \<union>
         (\<Union>p \<in> set (filter (\<lambda>d. HasSuffix d ''+'') devs).
            set (filter (\<lambda>n. HasPrefix n (TrimRight p ''+'') \<and> checkDeviceWithIP e cfg n)
                   (map Name allLinks)))
       in if devs \<noteq> [] \<and> expansion = {}
          then expandDeviceWildcards e cfg dm devs opt = Inl (WildcardNoDevices opt)
          else (\<exists>xs. expandDeviceWildcards e cfg dm devs opt = Inr xs \<and>
                  sorted xs \<and> distinct xs \<and> set xs = expansion)"
    using l fin
    unfolding expandDeviceWildcards_def Let_def expandEntries_lists [symmetric]
    by simp
qed

lemma exTwo_gate:
  "checkDeviceWithIP (exEnv exTwo) (exConfig devs) ''eth0''"
  "\<not> checkDeviceWithIP (exEnv exTwo) (exConfig devs) ''eth1''"
  by (simp_all add: checkDeviceWithIP_def checkLinkAddrs_def exDefs exTwo_def)

theorem expandDeviceWildcards_spec_witness:
  "LinkList (handle (exManager exTwo [] {})) = Inr exTwo \<and>
   expandDeviceWildcards (exEnv exTwo) (exConfig []) (exManager exTwo [] {})
     [''wlan+''] OptDevices = Inl (WildcardNoDevices OptDevices) \<and>
   (\<exists>xs. expandDeviceWildcards (exEnv exTwo) (exConfig []) (exManager exTwo [] {})
     [''eth+'', ''dummy0''] OptDevices = Inr xs \<and> sorted xs \<and> distinct xs \<and>
     set xs = {''eth0'', ''dummy0''}) \<and>
   LinkList (handle exBrokenManager) = Inl (SysError ''netlink: interrupted'') \<and>
   expandDeviceWildcards (exEnv exTwo) (exConfig []) exBrokenManager
     [''eth+'', ''dummy0''] OptDevices =
     Inl (WildcardFetchFailed (SysError ''netlink: interrupted''))"
proof -
  have h: "LinkList (handle (exManager exTwo [] {})) = Inr exTwo"
    by (simp add: exManager_def exHandle_def)
  have g: "LinkList (handle exBrokenManager) = Inl (SysError ''netlink: interrupted'')"
    by (simp add: exBrokenManager_def)
  have n: "map Name exTwo = [''eth0'', ''eth1'']"
    by (simp add: exTwo_def exEth0_def exEth1_def mkLink_def)
  show ?thesis
    using h g
      expandDeviceWildcards_spec [of "exManager exTwo [] {}" "exEnv exTwo" "exConfig []"
        "[''wlan+'']" OptDevices, THEN conjunct2, rule_format, OF h]
      expandDeviceWildcards_spec [of "exManager exTwo [] {}" "exEnv exTwo" "exConfig []"
        "[''eth+'', ''dummy0'']" OptDevices, THEN conjunct2, rule_format, OF h]
      expandDeviceWildcards_spec [of exBrokenManager "exEnv exTwo" "exConfig []"
        "[''eth+'', ''dummy0'']" OptDevices, THEN conjunct1, rule_format, OF g]
    unfolding Let_def n by (simp add: strDefs exTwo_gate)
qed

text \<open>Counterexample to C3 as stated: the pattern list holds the single pattern
  \<open>eth0\<close>, which has no trailing \<open>+\<close>, and the link listing fails; the result is an
  error, not the list with \<open>eth0\<close>.\<close>

theorem expandDeviceWildcards_spec_counterexample:
  "\<not> HasSuffix ''eth0'' ''+'' \<and>
   LinkList (handle exBrokenManager) = Inl (SysError ''netlink: interrupted'') \<and>
   expandDeviceWildcards (exEnv exTwo) (exConfig []) exBrokenManager [''eth0''] OptDevices =
     Inl (WildcardFetchFailed (SysError ''netlink: interrupted''))"
  by (simp add: exBrokenManager_def expandDeviceWildcards_def HasSuffix_def)

subsection \<open>Static device check\<close>

lemma checkLinks_devices:
  "fst (checkLinks e cfg flt ls (devs, cur, ch)) =
     (devs - {Name l | l. l \<in> set ls \<and> \<not> (match e cfg flt (Name l) \<and> \<not> hasExcludedPrefix (Name l))})
     \<union> {Name l | l. l \<in> set ls \<and> match e cfg flt (Name l) \<and> \<not> hasExcludedPrefix (Name l)}"
proof (induction ls arbitrary: devs cur ch)
  case Nil
  show ?case by simp
next
  case (Cons l ls)
  show ?case
    unfolding checkLinks.simps Let_def
    by (simp only: Cons.IH split: if_splits) auto
qed

lemma checkLinks_current:
  "fst (snd (checkLinks e cfg flt ls (devs, cur, ch))) n = Some l \<Longrightarrow>
     cur n = Some l \<or>
     (l \<in> set ls \<and> Name l = n \<and> match e cfg flt n \<and> \<not> hasExcludedPrefix n)"
proof (induction ls arbitrary: devs cur ch)
  case Nil
  then show ?case by simp
next
  case (Cons h ls)
  from Cons.prems show ?case
    unfolding checkLinks.simps Let_def
    by (auto split: if_splits dest!: Cons.IH)
qed

lemma checkLinks_current_dom:
  "dom (fst (snd (checkLinks e cfg flt ls (devs, cur, ch)))) =
     dom cur \<union> {Name l | l. l \<in> set ls \<and> match e cfg flt (Name l) \<and> \<not> hasExcludedPrefix (Name l)}"
proof (induction ls arbitrary: devs cur ch)
  case Nil
  show ?case by simp
next
  case (Cons h ls)
  show ?case
    unfolding checkLinks.simps Let_def
    by (simp only: Cons.IH split: if_splits) (auto split: if_splits)
qed

lemma checkLinks_changed_mono:
  "ch \<Longrightarrow> snd (snd (checkLinks e cfg flt ls (devs, cur, ch)))"
  by (induction ls arbitrary: devs cur) (simp_all add: Let_def)

lemma checkLinks_filters_lost:
  assumes "l \<in> set ls" and "Name l \<in> devs"
    and "match e cfg flt (Name l)" and "\<not> hasExcludedPrefix (Name l)"
    and "tcFiltersLost e l"
  shows "snd (snd (checkLinks e cfg flt ls (devs, cur, ch)))"
  using assms
proof (induction ls arbitrary: devs cur ch)
  case Nil
  then show ?case by simp
next
  case (Cons h ls)
  show ?case
  proof (cases "h = l")
    case True
    with Cons.prems show ?thesis
      by (simp add: Let_def checkLinks_changed_mono)
  next
    case False
    with Cons.prems have "l \<in> set ls" by simp
    moreover have "Name l \<in> insert (Name h) devs" using Cons.prems by simp
    moreover have "\<not> (match e cfg flt (Name h) \<and> \<not> hasExcludedPrefix (Name h)) \<Longrightarrow>
        Name l \<in> devs - {Name h}"
      using Cons.prems by auto
    ultimately show ?thesis
      using Cons.prems(2-5) Cons.IH
      unfolding checkLinks.simps Let_def
      by (auto split: if_splits)
  qed
qed

lemma checkStaticDevices_run:
  assumes "LinkList (handle dm) = Inr allLinks" and "effectiveFilter e \<noteq> []"
  shows "checkStaticDevices e cfg dm =
     (case removeLost (checkLinks e cfg (effectiveFilter e) allLinks (devices dm, Map.empty, False)) of
        (devs, currentExistOnHost, changed) \<Rightarrow>
          (changed \<or> (\<exists>name \<in> devs. addrChanged e currentExistOnHost name),
           dm\<lparr>devices := devs\<rparr>))"
  using assms by (simp add: checkStaticDevices_def Let_def)

lemma removeLost_checkLinks_devices:
  "fst (removeLost (checkLinks e cfg flt ls (devs, Map.empty, ch))) =
     {Name l | l. l \<in> set ls \<and> match e cfg flt (Name l) \<and> \<not> hasExcludedPrefix (Name l)}"
proof -
  obtain d c b where r: "checkLinks e cfg flt ls (devs, Map.empty, ch) = (d, c, b)"
    by (cases "checkLinks e cfg flt ls (devs, Map.empty, ch)") auto
  have d: "d = (devs - {Name l | l. l \<in> set ls \<and> \<not> (match e cfg flt (Name l) \<and> \<not> hasExcludedPrefix (Name l))})
     \<union> {Name l | l. l \<in> set ls \<and> match e cfg flt (Name l) \<and> \<not> hasExcludedPrefix (Name l)}"
    using checkLinks_devices [of e cfg flt ls devs Map.empty ch] r by simp
  have c: "dom c = {Name l | l. l \<in> set ls \<and> match e cfg flt (Name l) \<and> \<not> hasExcludedPrefix (Name l)}"
    using checkLinks_current_dom [of e cfg flt ls devs Map.empty ch] r by simp
  have "fst (removeLost (d, c, b)) = d \<inter> dom c"
    by (auto simp: removeLost_def)
  then show ?thesis unfolding r using d c by auto
qed

lemma checkStaticDevices_devices:
  assumes "LinkList (handle dm) = Inr allLinks" and "effectiveFilter e \<noteq> []"
  shows "devices (snd (checkStaticDevices e cfg dm)) =
     {Name l | l. l \<in> set allLinks \<and> match e cfg (effectiveFilter e) (Name l) \<and>
        \<not> hasExcludedPrefix (Name l)}"
proof -
  obtain d c b where
    r: "removeLost (checkLinks e cfg (effectiveFilter e) allLinks (devices dm, Map.empty, False)) = (d, c, b)"
    by (cases "removeLost (checkLinks e cfg (effectiveFilter e) allLinks (devices dm, Map.empty, False))") auto
  show ?thesis
    using removeLost_checkLinks_devices [of e cfg "effectiveFilter e" allLinks "devices dm" False]
    unfolding checkStaticDevices_run [OF assms] r
    by simp
qed

lemma tcFiltersLost_iff:
  "tcFiltersLost e l \<longleftrightarrow>
     (\<exists>ingress egress.
        FilterList (netlink e) l tcFilterParentIngress = Inr ingress \<and>
        FilterList (netlink e) l tcFilterParentEgress = Inr egress \<and>
        (\<forall>f \<in> set ingress \<union> set egress. \<not> isCiliumFilter f))"
  by (auto simp: tcFiltersLost_def filter_empty_conv split: sum.splits)

lemma isCiliumFilter_iff:
  "isCiliumFilter f \<longleftrightarrow>
     (\<exists>name. f = BpfFilter name \<and>
        (\<exists>s \<in> {''bpf_netdev'', ''bpf_network'', ''bpf_host'', ''bpf_lxc'', ''bpf_overlay''}.
           Contains name s))"
  by (cases f) (auto simp: isCiliumFilter_def)

text \<open>
  C6, as amended.  \<open>tcFiltersLost\<close> is true exactly when the listing of the ingress parent and
  the listing of the egress parent both succeed and no BPF filter in either has a name
  containing \<open>bpf_netdev\<close>, \<open>bpf_network\<close>, \<open>bpf_host\<close>, \<open>bpf_lxc\<close> or
  \<open>bpf_overlay\<close>; a listing error on either parent gives false.  In a run of
  \<open>checkStaticDevices\<close> that gets past its early returns, a listed link that is
  tracked, passes the filter, has no excluded prefix and has lost its filters makes the
  run report a change, and its name is still in the device set afterwards.
\<close>

theorem tcFiltersLost_spec:
  "(tcFiltersLost e l \<longleftrightarrow>
      (\<exists>ingress egress.
         FilterList (netlink e) l tcFilterParentIngress = Inr ingress \<and>
         FilterList (netlink e) l tcFilterParentEgress = Inr egress \<and>
         (\<forall>name. BpfFilter name \<in> set ingress \<union> set egress \<longrightarrow>
            \<not> (\<exists>s \<in> {''bpf_netdev'', ''bpf_network'', ''bpf_host'', ''bpf_lxc'', ''bpf_overlay''}.
                 Contains name s)))) \<and>
   ((\<exists>err. FilterList (netlink e) l tcFilterParentIngress = Inl err \<or>
           FilterList (netlink e) l tcFilterParentEgress = Inl err) \<longrightarrow>
      \<not> tcFiltersLost e l) \<and>
   (LinkList (handle dm) = Inr allLinks \<and> effectiveFilter e \<noteq> [] \<and>
    l \<in> set allLinks \<and> Name l \<in> devices dm \<and>
    match e cfg (effectiveFilter e) (Name l) \<and> \<not> hasExcludedPrefix (Name l) \<and>
    tcFiltersLost e l \<longrightarrow>
      fst (checkStaticDevices e cfg dm) \<and>
      Name l \<in> devices (snd (checkStaticDevices e cfg dm)))"
proof (intro conjI impI)
  show "tcFiltersLost e l \<longleftrightarrow>
      (\<exists>ingress egress.
         FilterList (netlink e) l tcFilterParentIngress = Inr ingress \<and>
         FilterList (netlink e) l tcFilterParentEgress = Inr egress \<and>
         (\<forall>name. BpfFilter name \<in> set ingress \<union> set egress \<longrightarrow>
            \<not> (\<exists>s \<in> {''bpf_netdev'', ''bpf_network'', ''bpf_host'', ''bpf_lxc'', ''bpf_overlay''}.
                 Contains name s)))"
  proof -
    define R where
      "R = (\<lambda>name. \<exists>s \<in> {''bpf_netdev'', ''bpf_network'', ''bpf_host'', ''bpf_lxc'', ''bpf_overlay''}.
              Contains name s)"
    have c: "isCiliumFilter f \<longleftrightarrow> (\<exists>name. f = BpfFilter name \<and> R name)" for f
      unfolding R_def by (rule isCiliumFilter_iff)
    have "(\<forall>f \<in> set ingress \<union> set egress. \<not> isCiliumFilter f) \<longleftrightarrow>
          (\<forall>name. BpfFilter name \<in> set ingress \<union> set egress \<longrightarrow> \<not> R name)"
      for ingress egress
      unfolding c by blast
    then show ?thesis
      unfolding tcFiltersLost_iff R_def by simp
  qed
next
  assume "\<exists>err. FilterList (netlink e) l tcFilterParentIngress = Inl err \<or>
           FilterList (netlink e) l tcFilterParentEgress = Inl err"
  then show "\<not> tcFiltersLost e l"
    unfolding tcFiltersLost_iff by auto
next
  assume a: "LinkList (handle dm) = Inr allLinks \<and> effectiveFilter e \<noteq> [] \<and>
    l \<in> set allLinks \<and> Name l \<in> devices dm \<and>
    match e cfg (effectiveFilter e) (Name l) \<and> \<not> hasExcludedPrefix (Name l) \<and>
    tcFiltersLost e l"
  then have run: "LinkList (handle dm) = Inr allLinks" "effectiveFilter e \<noteq> []" by simp_all
  obtain d c b where
    r: "checkLinks e cfg (effectiveFilter e) allLinks (devices dm, Map.empty, False) = (d, c, b)"
    by (cases "checkLinks e cfg (effectiveFilter e) allLinks (devices dm, Map.empty, False)") auto
  have "b"
    using a checkLinks_filters_lost
      [of l allLinks "devices dm" e cfg "effectiveFilter e" Map.empty False] r
    by simp
  then show "fst (checkStaticDevices e cfg dm)"
    unfolding checkStaticDevices_run [OF run] r by (simp add: removeLost_def)
next
  assume a: "LinkList (handle dm) = Inr allLinks \<and> effectiveFilter e \<noteq> [] \<and>
    l \<in> set allLinks \<and> Name l \<in> devices dm \<and>
    match e cfg (effectiveFilter e) (Name l) \<and> \<not> hasExcludedPrefix (Name l) \<and>
    tcFiltersLost e l"
  then have run: "LinkList (handle dm) = Inr allLinks" "effectiveFilter e \<noteq> []" by simp_all
  show "Name l \<in> devices (snd (checkStaticDevices e cfg dm))"
    unfolding checkStaticDevices_devices [OF run] using a by auto
qed

lemma effectiveFilter_empty:
  "effectiveFilter e = [] \<longleftrightarrow>
     set (viperDevices e) \<union> (case ReadDynamicDevices e of Inl err \<Rightarrow> {} | Inr ds \<Rightarrow> set ds) = {}"
  unfolding effectiveFilter_def Let_def
  by (cases "ReadDynamicDevices e") (simp_all add: sorted_list_of_set_eq_Nil_iff)

text \<open>
  C7.  \<open>checkStaticDevices\<close> reports no change and returns the manager as it was when
  the link listing fails, and also when the configured patterns together with the
  dynamic patterns (none when reading them fails) form the empty set, whatever the
  host looks like.
\<close>

theorem checkStaticDevices_skip:
  "((\<exists>err. LinkList (handle dm) = Inl err) \<longrightarrow> checkStaticDevices e cfg dm = (False, dm)) \<and>
   (set (viperDevices e) \<union>
      (case ReadDynamicDevices e of Inl err \<Rightarrow> {} | Inr ds \<Rightarrow> set ds) = {} \<longrightarrow>
    checkStaticDevices e cfg dm = (False, dm))"
  unfolding effectiveFilter_empty [symmetric]
  by (auto simp: checkStaticDevices_def Let_def split: sum.splits)

text \<open>
  C10.  After a run of \<open>checkStaticDevices\<close> in which the link listing succeeded and
  the effective filter was not empty, every name left in the device set is the name of
  a listed link, passes the effective filter and has no excluded prefix; and every such
  name is a key of \<open>currentExistOnHost\<close>, bound to a listed link of that name, so the
  address loop, which ranges over the device set, looks up recorded links only.
\<close>

theorem checkStaticDevices_present:
  assumes "LinkList (handle dm) = Inr allLinks" and "effectiveFilter e \<noteq> []"
  shows
    "(\<forall>name \<in> devices (snd (checkStaticDevices e cfg dm)).
        (\<exists>l \<in> set allLinks. Name l = name) \<and>
        match e cfg (effectiveFilter e) name \<and> \<not> hasExcludedPrefix name) \<and>
     (case removeLost (checkLinks e cfg (effectiveFilter e) allLinks
                         (devices dm, Map.empty, False)) of
        (devs, currentExistOnHost, changed) \<Rightarrow>
          checkStaticDevices e cfg dm =
            (changed \<or> (\<exists>name \<in> devs. addrChanged e currentExistOnHost name),
             dm\<lparr>devices := devs\<rparr>) \<and>
          (\<forall>name \<in> devs.
             \<exists>l \<in> set allLinks. Name l = name \<and> currentExistOnHost name = Some l))"
proof -
  obtain d c b where
    r: "checkLinks e cfg (effectiveFilter e) allLinks (devices dm, Map.empty, False) = (d, c, b)"
    by (cases "checkLinks e cfg (effectiveFilter e) allLinks (devices dm, Map.empty, False)") auto
  have cur: "\<exists>l \<in> set allLinks. Name l = name \<and> c name = Some l"
    if "name \<in> d" and "c name \<noteq> None" for name
  proof -
    from that obtain l where l: "c name = Some l" by auto
    then have "l \<in> set allLinks \<and> Name l = name"
      using checkLinks_current [of e cfg "effectiveFilter e" allLinks "devices dm" Map.empty False name l] r
      by simp
    with l show ?thesis by auto
  qed
  have first: "\<forall>name \<in> devices (snd (checkStaticDevices e cfg dm)).
        (\<exists>l \<in> set allLinks. Name l = name) \<and>
        match e cfg (effectiveFilter e) name \<and> \<not> hasExcludedPrefix name"
    unfolding checkStaticDevices_devices [OF assms] by auto
  have second: "case removeLost (checkLinks e cfg (effectiveFilter e) allLinks
                         (devices dm, Map.empty, False)) of
        (devs, currentExistOnHost, changed) \<Rightarrow>
          checkStaticDevices e cfg dm =
            (changed \<or> (\<exists>name \<in> devs. addrChanged e currentExistOnHost name),
             dm\<lparr>devices := devs\<rparr>) \<and>
          (\<forall>name \<in> devs.
             \<exists>l \<in> set allLinks. Name l = name \<and> currentExistOnHost name = Some l)"
    unfolding checkStaticDevices_run [OF assms] r
    using cur by (simp add: removeLost_def)
  from first second show ?thesis by (rule conjI)
qed

lemma exTick_facts:
  "LinkList (handle exTickManager) = Inr exTickLinks"
  "LinkList (handle exStaleManager) = Inr exTickLinks"
  "effectiveFilter exTickEnv = [''eth+'']"
  "exEth12 \<in> set exTickLinks"
  "Name exEth12 = ''eth12''"
  "devices exTickManager = {''eth0'', ''eth12''}"
  "match exTickEnv (exConfig []) [''eth+''] ''eth12''"
  "\<not> hasExcludedPrefix ''eth12''"
  "tcFiltersLost exTickEnv exEth12"
  "\<not> tcFiltersLost exTickEnv exEth0"
  "FilterList (netlink exNoFiltersEnv) exEth12 tcFilterParentIngress =
     Inl (SysError ''netlink: interrupted'')"
  by (simp_all add: exTickManager_def exStaleManager_def exManager_def exHandle_def
        exTickLinks_def exEth12_def mkLink_def exNoFiltersEnv_def)
     code_simp+

theorem tcFiltersLost_spec_witness:
  "tcFiltersLost exTickEnv exEth12 \<and>
   \<not> tcFiltersLost exNoFiltersEnv exEth12 \<and>
   fst (checkStaticDevices exTickEnv (exConfig []) exTickManager) \<and>
   ''eth12'' \<in> devices (snd (checkStaticDevices exTickEnv (exConfig []) exTickManager))"
  using tcFiltersLost_spec [of exTickEnv exEth12 exTickManager exTickLinks "exConfig []"]
    tcFiltersLost_spec [of exNoFiltersEnv exEth12 exTickManager exTickLinks "exConfig []"]
    exTick_facts
  by auto

text \<open>Counterexample to C6 as stated: \<open>eth12\<close> is tracked and listed and has lost
  its filters, but the effective filter is empty, so the run returns early and reports
  no change.\<close>

theorem tcFiltersLost_spec_counterexample:
  "LinkList (handle exTickManager) = Inr exTickLinks \<and>
   exEth12 \<in> set exTickLinks \<and>
   Name exEth12 \<in> devices exTickManager \<and>
   tcFiltersLost (exEnv exTickLinks) exEth12 \<and>
   \<not> fst (checkStaticDevices (exEnv exTickLinks) (exConfig []) exTickManager)"
  by (simp add: exTick_facts) code_simp

theorem checkStaticDevices_skip_witness:
  "checkStaticDevices exTickEnv (exConfig []) exBrokenManager = (False, exBrokenManager) \<and>
   checkStaticDevices (exEnv exTickLinks) (exConfig []) exTickManager = (False, exTickManager)"
proof -
  have a: "\<exists>err. LinkList (handle exBrokenManager) = Inl err"
    by (simp add: exBrokenManager_def)
  have b: "set (viperDevices (exEnv exTickLinks)) \<union>
      (case ReadDynamicDevices (exEnv exTickLinks) of Inl err \<Rightarrow> {} | Inr ds \<Rightarrow> set ds) = {}"
    by (simp add: exEnv_def ReadDynamicDevices_def)
  show ?thesis
    using a b
      checkStaticDevices_skip [of exBrokenManager exTickEnv "exConfig []"]
      checkStaticDevices_skip [of exTickManager "exEnv exTickLinks" "exConfig []"]
    by simp
qed

lemma exStale_devices:
  "devices (snd (checkStaticDevices exTickEnv (exConfig []) exStaleManager)) = {''eth0'', ''eth12''}"
  by code_simp

theorem checkStaticDevices_present_witness:
  "LinkList (handle exStaleManager) = Inr exTickLinks \<and>
   effectiveFilter exTickEnv \<noteq> [] \<and>
   devices (snd (checkStaticDevices exTickEnv (exConfig []) exStaleManager)) = {''eth0'', ''eth12''} \<and>
   (\<exists>l \<in> set exTickLinks. Name l = ''eth12'') \<and>
   match exTickEnv (exConfig []) (effectiveFilter exTickEnv) ''eth12'' \<and>
   \<not> hasExcludedPrefix ''eth12''"
proof -
  have h: "LinkList (handle exStaleManager) = Inr exTickLinks"
    and f: "effectiveFilter exTickEnv \<noteq> []"
    by (simp_all add: exTick_facts)
  show ?thesis
    using h f exStale_devices
      checkStaticDevices_present [OF h f, of "exConfig []"]
    by simp
qed

subsection \<open>Detection\<close>

lemma sorted_list_of_set_idem:
  assumes "sorted xs" and "distinct xs"
  shows "sorted_list_of_set (set xs) = xs"
  by (rule sorted_distinct_set_unique) (use assms in simp_all)

lemma fold_insert_set: "fold insert xs A = set xs \<union> A"
  by (induction xs arbitrary: A) auto

lemma expandDeviceWildcards_Inr:
  assumes "expandDeviceWildcards e cfg dm devs opt = Inr xs"
  shows "sorted xs" and "distinct xs" and "devs \<noteq> [] \<Longrightarrow> xs \<noteq> []"
    and "\<exists>allLinks. LinkList (handle dm) = Inr allLinks \<and>
           set xs = expandEntries e cfg allLinks devs {}"
proof -
  from assms obtain allLinks where l: "LinkList (handle dm) = Inr allLinks"
    by (cases "LinkList (handle dm)") (auto simp: expandDeviceWildcards_def)
  have fin: "finite (expandEntries e cfg allLinks devs {})"
    unfolding expandEntries_lists by simp
  from assms l have xs: "xs = sorted_list_of_set (expandEntries e cfg allLinks devs {})"
    and ne: "devs \<noteq> [] \<Longrightarrow> expandEntries e cfg allLinks devs {} \<noteq> {}"
    by (auto simp: expandDeviceWildcards_def Let_def split: if_splits)
  show "sorted xs" and "distinct xs" unfolding xs by simp_all
  show "devs \<noteq> [] \<Longrightarrow> xs \<noteq> []" using ne fin unfolding xs by simp
  show "\<exists>allLinks. LinkList (handle dm) = Inr allLinks \<and>
           set xs = expandEntries e cfg allLinks devs {}"
    using l fin unfolding xs by auto
qed

lemma expandDeviceWildcards_handle:
  "LinkList (handle dm') = LinkList (handle dm) \<Longrightarrow>
   expandDeviceWildcards e cfg dm' devs opt = expandDeviceWildcards e cfg dm devs opt"
  by (simp add: expandDeviceWildcards_def)

lemma Detect_seeded:
  assumes "Devices cfg \<noteq> []"
    and "expandDeviceWildcards e cfg (dm\<lparr>devices := {}\<rparr>) (Devices cfg) OptDevices = Inr xs"
    and "DirectRoutingDevice cfg = ''''" and "IPv6MCastDevice cfg = ''''"
    and "\<not> EnableIPv6NDP cfg"
    and "\<not> DirectRoutingDeviceRequired e (cfg\<lparr>Devices := xs\<rparr>)"
  shows "Detect e dm cfg = (Inr xs, dm\<lparr>devices := set xs\<rparr>, cfg\<lparr>Devices := xs\<rparr>)"
proof -
  note x = expandDeviceWildcards_Inr [OF assms(2)]
  have ne: "xs \<noteq> []" using x(3) assms(1) by simp
  have a: "expandDevices e (dm\<lparr>devices := {}\<rparr>) cfg = Inr (cfg\<lparr>Devices := xs\<rparr>)"
    using assms(2) by (simp add: expandDevices_def)
  have b: "expandDirectRoutingDevice e (dm\<lparr>devices := {}\<rparr>) (cfg\<lparr>Devices := xs\<rparr>) =
             Inr (cfg\<lparr>Devices := xs\<rparr>)"
    using assms(3) by (simp add: expandDirectRoutingDevice_def)
  have c: "seedDevices e (cfg\<lparr>Devices := xs\<rparr>) (dm\<lparr>devices := {}\<rparr>) l3 =
             Inr (dm\<lparr>devices := set xs\<rparr>)" for l3
    using ne by (simp add: seedDevices_def fold_insert_set)
  have d: "resolveDevices e (dm\<lparr>devices := set xs\<rparr>) (cfg\<lparr>Devices := xs\<rparr>) =
             (None, dm\<lparr>devices := set xs\<rparr>, cfg\<lparr>Devices := xs\<rparr>)"
    using assms(3-6) by (simp add: resolveDevices_def Let_def)
  have g: "getDeviceList (dm\<lparr>devices := set xs\<rparr>) = xs"
    using x(1,2) by (simp add: getDeviceList_def sorted_list_of_set_idem)
  show ?thesis
    by (simp add: Detect_def Let_def a b c d g)
qed

text \<open>
  C8, as amended.  When \<open>Detect\<close> is called with a non-empty configured device list
  whose wildcard expansion succeeds, and no direct routing or multicast device is
  configured or to be detected, the device set is seeded from the expanded list, the
  result does not depend on what listing the routes would return (none is asked for),
  and the returned list is the expanded list: sorted, without duplicates, and equal to
  the configured list when that is sorted, has no duplicates and no entry ending in
  \<open>+\<close>.
\<close>

theorem Detect_explicit_devices:
  assumes "Devices cfg \<noteq> []"
    and "expandDeviceWildcards e cfg (dm\<lparr>devices := {}\<rparr>) (Devices cfg) OptDevices = Inr xs"
    and "DirectRoutingDevice cfg = ''''" and "IPv6MCastDevice cfg = ''''"
    and "\<not> EnableIPv6NDP cfg"
    and "\<not> DirectRoutingDeviceRequired e (cfg\<lparr>Devices := xs\<rparr>)"
  shows
    "Detect e dm cfg = (Inr xs, dm\<lparr>devices := set xs\<rparr>, cfg\<lparr>Devices := xs\<rparr>) \<and>
     (\<forall>r. fst (Detect e (dm\<lparr>handle := (handle dm)\<lparr>RouteListFiltered := r\<rparr>\<rparr>) cfg) = Inr xs \<and>
          devices (fst (snd (Detect e (dm\<lparr>handle := (handle dm)\<lparr>RouteListFiltered := r\<rparr>\<rparr>) cfg))) =
            set xs) \<and>
     sorted xs \<and> distinct xs \<and>
     (sorted (Devices cfg) \<and> distinct (Devices cfg) \<and>
      (\<forall>d \<in> set (Devices cfg). \<not> HasSuffix d ''+'') \<longrightarrow> xs = Devices cfg)"
proof (intro conjI allI impI)
  show "Detect e dm cfg = (Inr xs, dm\<lparr>devices := set xs\<rparr>, cfg\<lparr>Devices := xs\<rparr>)"
    by (rule Detect_seeded [OF assms])
next
  fix r
  let ?dm = "dm\<lparr>handle := (handle dm)\<lparr>RouteListFiltered := r\<rparr>\<rparr>"
  have "expandDeviceWildcards e cfg (?dm\<lparr>devices := {}\<rparr>) (Devices cfg) OptDevices = Inr xs"
    using assms(2) by (simp add: expandDeviceWildcards_def)
  note s = Detect_seeded [OF assms(1) this assms(3-6)]
  show "fst (Detect e ?dm cfg) = Inr xs" by (simp add: s)
  show "devices (fst (snd (Detect e ?dm cfg))) = set xs" by (simp add: s)
next
  show "sorted xs" and "distinct xs"
    using expandDeviceWildcards_Inr [OF assms(2)] by simp_all
next
  assume p: "sorted (Devices cfg) \<and> distinct (Devices cfg) \<and>
      (\<forall>d \<in> set (Devices cfg). \<not> HasSuffix d ''+'')"
  then have f: "filter (\<lambda>d. HasSuffix d ''+'') (Devices cfg) = []"
    and g: "filter (\<lambda>d. \<not> HasSuffix d ''+'') (Devices cfg) = Devices cfg"
    by (simp_all add: filter_empty_conv filter_id_conv)
  note x = expandDeviceWildcards_Inr [OF assms(2)]
  from x(4) have "set xs = set (Devices cfg)"
    unfolding expandEntries_lists f g by auto
  with x(1,2) p show "xs = Devices cfg"
    by (auto intro: sorted_distinct_set_unique)
qed







lemma addViable_devices:
  "name \<in> devices (fst (addViable e cfg l3 infos (dm, ch))) \<Longrightarrow>
     name \<in> devices dm \<or>
     (\<exists>info l. isViableDevice e cfg (dm\<lparr>devices := D\<rparr>) l3 info l \<and> Name l = name)"
proof (induction infos arbitrary: dm ch)
  case Nil
  then show ?case by simp
next
  case (Cons a infos)
  obtain index info where a: "a = (index, info)" by (cases a)
  have v: "isViableDevice e cfg (dm\<lparr>devices := D'\<rparr>) l3 i l = isViableDevice e cfg dm l3 i l"
    for D' i l dm
    by (simp add: isViableDevice_def Let_def)
  show ?case
  proof (cases "LinkByIndex (handle dm) index")
    case (Inl err)
    then show ?thesis using Cons.IH [of dm ch] Cons.prems by (simp add: a)
  next
    case (Inr l)
    show ?thesis
    proof (cases "Name l \<notin> devices dm \<and> isViableDevice e cfg dm l3 info l")
      case True
      then show ?thesis
        using Cons.IH [of "dm\<lparr>devices := insert (Name l) (devices dm)\<rparr>" True] Cons.prems Inr
        by (auto simp: a v)
    next
      case False
      then show ?thesis using Cons.IH [of dm ch] Cons.prems Inr
        by (auto simp: a split: if_splits)
    qed
  qed
qed












lemma isViableDevice_accepts:
  "isViableDevice e cfg dm l3 info l \<Longrightarrow>
     \<not> hasExcludedPrefix (Name l) \<and> match e cfg (filter' dm) (Name l)"
  unfolding isViableDevice_def Let_def by (simp split: if_splits)

lemma Detect_autodetect:
  assumes "Devices cfg = []" and "DirectRoutingDevice cfg = ''''"
    and "IPv6MCastDevice cfg = ''''" and "\<not> EnableIPv6NDP cfg"
    and "\<not> DirectRoutingDeviceRequired e cfg"
    and "name \<in> devices (fst (snd (Detect e dm cfg)))"
  shows "\<not> hasExcludedPrefix name \<and> match e cfg (filter' dm) name"
proof -
  let ?dm = "dm\<lparr>devices := {}\<rparr>"
  have same: "cfg\<lparr>Devices := []\<rparr> = cfg"
    using assms(1) by (cases cfg) simp
  show ?thesis
  proof (cases "LinkList (handle dm)")
    case (Inl a)
    then have "devices (fst (snd (Detect e dm cfg))) = {}"
      by (simp add: Detect_def Let_def expandDevices_def expandDeviceWildcards_def)
    with assms(6) show ?thesis by simp
  next
    case (Inr allLinks)
    then have a: "expandDevices e ?dm cfg = Inr cfg"
      using assms(1) same by (simp add: expandDevices_def expandDeviceWildcards_def)
    have b: "expandDirectRoutingDevice e ?dm cfg = Inr cfg"
      using assms(2) by (simp add: expandDirectRoutingDevice_def)
    define l3 where "l3 = (if \<not> EnableHostLegacyRouting cfg then supportL3Dev e else True)"
    have d: "resolveDevices e dm1 cfg = (None, dm1, cfg)" for dm1
      using assms(2-5) by (simp add: resolveDevices_def Let_def)
    show ?thesis
    proof (cases "seedDevices e cfg ?dm l3")
      case (Inl a)
      then have "devices (fst (snd (Detect e dm cfg))) = {}"
        using a b by (simp add: Detect_def Let_def l3_def)
      with assms(6) show ?thesis by simp
    next
      case dm1: (Inr dm1)
      then have "devices (fst (snd (Detect e dm cfg))) = devices dm1"
        using a b d by (simp add: Detect_def Let_def l3_def)
      with assms(6) have n: "name \<in> devices dm1" by simp
      show ?thesis
      proof (cases "AreDevicesRequired cfg")
        case False
        with dm1 assms(1) have "devices dm1 = {}"
          by (auto simp: seedDevices_def)
        with n show ?thesis by simp
      next
        case True
        with dm1 assms(1) obtain routes where
          r: "dm1 = fst (addViable e cfg l3 (collectLinkInfos routes []) (?dm, False))"
          by (auto simp: seedDevices_def updateDevicesFromRoutes_def split: sum.splits)
        from n have "name \<in> devices (fst (addViable e cfg l3 (collectLinkInfos routes []) (?dm, False)))"
          unfolding r .
        from addViable_devices [OF this, of "devices dm"]
        have "\<exists>info l. isViableDevice e cfg dm l3 info l \<and> Name l = name"
          by simp
        then obtain info l where "isViableDevice e cfg dm l3 info l" and "Name l = name"
          by blast
        with isViableDevice_accepts show ?thesis by blast
      qed
    qed
  qed
qed

text \<open>
  C5, as amended.  After a run of \<open>checkStaticDevices\<close> in which the link listing
  succeeded and the effective filter was not empty, no name in the device set has an
  excluded prefix and every name passes the effective filter.  After a \<open>Detect\<close> with
  no device list, direct routing device or multicast device configured and neither to
  be detected, no name in the device set has an excluded prefix and every name passes
  the manager's filter.  Names taken from the configuration are not checked.
\<close>

theorem deviceSet_invariant:
  "(LinkList (handle dm) = Inr allLinks \<and> effectiveFilter e \<noteq> [] \<longrightarrow>
      (\<forall>name \<in> devices (snd (checkStaticDevices e cfg dm)).
         \<not> hasExcludedPrefix name \<and> match e cfg (effectiveFilter e) name)) \<and>
   (Devices cfg = [] \<and> DirectRoutingDevice cfg = '''' \<and> IPv6MCastDevice cfg = '''' \<and>
    \<not> EnableIPv6NDP cfg \<and> \<not> DirectRoutingDeviceRequired e cfg \<longrightarrow>
      (\<forall>name \<in> devices (fst (snd (Detect e dm cfg))).
         \<not> hasExcludedPrefix name \<and> match e cfg (filter' dm) name))"
proof (intro conjI impI ballI)
  fix name
  assume a: "LinkList (handle dm) = Inr allLinks \<and> effectiveFilter e \<noteq> []"
    and n: "name \<in> devices (snd (checkStaticDevices e cfg dm))"
  from a have "devices (snd (checkStaticDevices e cfg dm)) =
     {Name l | l. l \<in> set allLinks \<and> match e cfg (effectiveFilter e) (Name l) \<and>
        \<not> hasExcludedPrefix (Name l)}"
    by (intro checkStaticDevices_devices) simp_all
  with n show "\<not> hasExcludedPrefix name" and "match e cfg (effectiveFilter e) name"
    by auto
next
  fix name
  assume a: "Devices cfg = [] \<and> DirectRoutingDevice cfg = '''' \<and> IPv6MCastDevice cfg = '''' \<and>
    \<not> EnableIPv6NDP cfg \<and> \<not> DirectRoutingDeviceRequired e cfg"
    and n: "name \<in> devices (fst (snd (Detect e dm cfg)))"
  from a n Detect_autodetect [of cfg e name dm]
  show "\<not> hasExcludedPrefix name" and "match e cfg (filter' dm) name"
    by simp_all
qed

subsection \<open>Dynamic devices\<close>

lemma readEntries_eq:
  "readEntries files devs =
     devs @ map (\<lambda>f. EntryName f @ ''+'') (filter (\<lambda>f. \<not> EntryIsDir f) files)"
  by (induction files arbitrary: devs) simp_all

text \<open>
  C9, as amended.  \<open>ReadDynamicDevices\<close> returns an empty list and no error when the
  path does not exist or is not a directory.  When the path is a directory it
  returns, without error, one pattern \<open>name+\<close> for each entry of the directory that is
  not itself a directory, in the order of the listing; entries that are directories
  give no pattern.
\<close>

theorem ReadDynamicDevices_spec:
  "(Stat e DynamicDevicePath = Inl NotExist \<longrightarrow> ReadDynamicDevices e = Inr []) \<and>
   (\<forall>pathState. Stat e DynamicDevicePath = Inr pathState \<and> \<not> IsDir pathState \<longrightarrow>
      ReadDynamicDevices e = Inr []) \<and>
   (\<forall>pathState. Stat e DynamicDevicePath = Inr pathState \<and> IsDir pathState \<longrightarrow>
      ReadDynamicDevices e =
        Inr (map (\<lambda>f. EntryName f @ ''+'')
               (filter (\<lambda>f. \<not> EntryIsDir f) (fst (ReadDir e DynamicDevicePath)))))"
  by (auto simp: ReadDynamicDevices_def readEntries_eq split: prod.splits)

subsection \<open>Instances for detection and the dynamic devices\<close>

lemma exDetect_eth0:
  "Devices (exConfig [''eth0'']) \<noteq> []"
  "expandDeviceWildcards (exEnv exTwo) (exConfig [''eth0''])
     ((exManager exTwo [''eth0''] {''old0''})\<lparr>devices := {}\<rparr>)
     (Devices (exConfig [''eth0''])) OptDevices = Inr [''eth0'']"
  "DirectRoutingDevice (exConfig [''eth0'']) = ''''"
  "IPv6MCastDevice (exConfig [''eth0'']) = ''''"
  "\<not> EnableIPv6NDP (exConfig [''eth0''])"
  "\<not> DirectRoutingDeviceRequired (exEnv exTwo) ((exConfig [''eth0''])\<lparr>Devices := [''eth0'']\<rparr>)"
  by (simp_all add: exConfig_def exEnv_def) code_simp

theorem Detect_explicit_devices_witness:
  "fst (Detect (exEnv exTwo) (exManager exTwo [''eth0''] {''old0''}) (exConfig [''eth0''])) =
     Inr [''eth0''] \<and>
   devices (fst (snd (Detect (exEnv exTwo) (exManager exTwo [''eth0''] {''old0''})
     (exConfig [''eth0''])))) = {''eth0''} \<and>
   Devices (snd (snd (Detect (exEnv exTwo) (exManager exTwo [''eth0''] {''old0''})
     (exConfig [''eth0''])))) = [''eth0'']"
  using Detect_explicit_devices [OF exDetect_eth0]
  by simp

text \<open>Counterexample to C8 as stated: with the configured list \<open>eth1, eth0\<close> and
  nothing else configured or required, \<open>Detect\<close> returns \<open>eth0, eth1\<close>, which is not
  the configured list.\<close>

theorem Detect_explicit_devices_counterexample:
  "Devices exUnsorted = [''eth1'', ''eth0''] \<and>
   DirectRoutingDevice exUnsorted = '''' \<and> IPv6MCastDevice exUnsorted = '''' \<and>
   \<not> EnableIPv6NDP exUnsorted \<and>
   fst (Detect (exEnv exTwo) exUnsortedManager exUnsorted) = Inr [''eth0'', ''eth1'']"
  by (simp add: exUnsorted_def exConfig_def) code_simp





text \<open>Counterexample to C5 as stated: \<open>Detect\<close> with the configured list \<open>lo\<close>
  succeeds and leaves \<open>lo\<close>, a name with an excluded prefix, in the device set.\<close>

theorem deviceSet_invariant_counterexample:
  "fst (Detect (exEnv exLinks) (exManager exLinks [''lo''] {}) (exConfig [''lo''])) = Inr [''lo''] \<and>
   ''lo'' \<in> devices (fst (snd (Detect (exEnv exLinks) (exManager exLinks [''lo''] {})
     (exConfig [''lo''])))) \<and>
   hasExcludedPrefix ''lo''"
  by code_simp

lemma exRoute_devices:
  "devices (fst (snd (Detect (exEnv exTwo) exRouteManager (exConfig [])))) = {''eth0''}"
  by code_simp

theorem deviceSet_invariant_witness:
  "devices (snd (checkStaticDevices exTickEnv (exConfig []) exStaleManager)) = {''eth0'', ''eth12''} \<and>
   \<not> hasExcludedPrefix ''eth12'' \<and>
   match exTickEnv (exConfig []) (effectiveFilter exTickEnv) ''eth12'' \<and>
   devices (fst (snd (Detect (exEnv exTwo) exRouteManager (exConfig [])))) = {''eth0''} \<and>
   \<not> hasExcludedPrefix ''eth0'' \<and>
   match (exEnv exTwo) (exConfig []) (filter' exRouteManager) ''eth0''"
proof -
  have h: "LinkList (handle exStaleManager) = Inr exTickLinks \<and> effectiveFilter exTickEnv \<noteq> []"
    by (simp add: exTick_facts)
  have g: "Devices (exConfig []) = [] \<and> DirectRoutingDevice (exConfig []) = '''' \<and>
      IPv6MCastDevice (exConfig []) = '''' \<and> \<not> EnableIPv6NDP (exConfig []) \<and>
      \<not> DirectRoutingDeviceRequired (exEnv exTwo) (exConfig [])"
    by (simp add: exConfig_def exEnv_def)
  show ?thesis
    using h g exStale_devices exRoute_devices
      deviceSet_invariant [of exStaleManager exTickLinks exTickEnv "exConfig []"]
      deviceSet_invariant [of exRouteManager exTickLinks "exEnv exTwo" "exConfig []"]
    by simp
qed

theorem ReadDynamicDevices_spec_witness:
  "ReadDynamicDevices (exEnv []) = Inr [] \<and>
   ReadDynamicDevices exFileEnv = Inr [] \<and>
   ReadDynamicDevices exDynEnv = Inr [''eth+'']"
  using ReadDynamicDevices_spec [of "exEnv []"] ReadDynamicDevices_spec [of exFileEnv]
    ReadDynamicDevices_spec [of exDynEnv]
  by (simp add: exEnv_def exFileEnv_def exDynEnv_def)

text \<open>Counterexample to C9 as stated: the directory has the entries \<open>eth\<close>, a
  file, and \<open>sub\<close>, a directory; the result has a pattern for \<open>eth\<close> only.\<close>

theorem ReadDynamicDevices_spec_counterexample:
  "Stat exDynEnv DynamicDevicePath = Inr \<lparr>IsDir = True\<rparr> \<and>
   fst (ReadDir exDynEnv DynamicDevicePath) =
     [\<lparr>EntryName = ''eth'', EntryIsDir = False\<rparr>, \<lparr>EntryName = ''sub'', EntryIsDir = True\<rparr>] \<and>
   ReadDynamicDevices exDynEnv = Inr [''eth+'']"
  by (simp add: exDynEnv_def ReadDynamicDevices_def)

end
